theory Spec2Isabelle
  imports Complex_Main
begin

section \<open>The Venn-diagram spatial calculator\<close>

text \<open>
  A shallow embedding of \<^verbatim>\<open>src/packages/backend/src/agents/sets/spatial_calculator.py\<close>.

  Conventions of the embedding:
  \<^item> Python \<^verbatim>\<open>float\<close> values are modelled by the real numbers (\<^typ>\<open>real\<close>), and
    \<^verbatim>\<open>math.pi\<close>, \<^verbatim>\<open>math.acos\<close> and \<^verbatim>\<open>math.sqrt\<close> by \<^term>\<open>pi\<close>, \<^term>\<open>arccos\<close>
    and \<^term>\<open>sqrt\<close>: the theorems are about the exact arithmetic of the formulas,
    not about IEEE rounding or overflow;
  \<^item> Python \<^verbatim>\<open>int\<close> is \<^typ>\<open>int\<close>;
  \<^item> every exception the code can raise is a value of \<open>py_error\<close>, and a function that
    can raise returns \<open>py_error + 'a\<close>;
  \<^item> a three-component \<^verbatim>\<open>np.ndarray\<close> is a triple of reals;
  \<^item> a Python \<^verbatim>\<open>set\<close> is a HOL set, and \<^verbatim>\<open>list(s)\<close>, whose order Python leaves to the
    hash table, is a parameter \<open>to_list\<close> of the functions that call it;
  \<^item> the \<^verbatim>\<open>verbose\<close> printing has no effect on any returned value and is left out.
\<close>

subsection \<open>Exceptions and the partial operations of the \<^verbatim>\<open>math\<close> module\<close>

datatype py_error = ZeroDivisionError | ValueError | KeyError | UnboundLocalError

definition bind_res :: "py_error + 'a \<Rightarrow> ('a \<Rightarrow> py_error + 'b) \<Rightarrow> py_error + 'b" where
  "bind_res r f = (case r of Inl e \<Rightarrow> Inl e | Inr v \<Rightarrow> f v)"

definition py_div :: "real \<Rightarrow> real \<Rightarrow> py_error + real" where
  "py_div a b = (if b = 0 then Inl ZeroDivisionError else Inr (a / b))"

definition py_sqrt :: "real \<Rightarrow> py_error + real" where
  "py_sqrt x = (if x < 0 then Inl ValueError else Inr (sqrt x))"

definition py_acos :: "real \<Rightarrow> py_error + real" where
  "py_acos x = (if x < - 1 \<or> 1 < x then Inl ValueError else Inr (arccos x))"

definition py_int :: "real \<Rightarrow> int" where
  \<comment> \<open>\<^verbatim>\<open>int(x)\<close> on a float truncates towards zero.\<close>
  "py_int x = (if 0 \<le> x then \<lfloor>x\<rfloor> else \<lceil>x\<rceil>)"

subsection \<open>Tiering policy\<close>

record tier_params =
  tp_radius :: real
  tp_font :: int
  tp_padding :: real

datatype threshold = Fin int | Infinite

fun le_threshold :: "int \<Rightarrow> threshold \<Rightarrow> bool" where
  "le_threshold n (Fin t) = (n \<le> t)"
| "le_threshold n Infinite = True"

definition TIER_THRESHOLDS :: "(threshold \<times> string \<times> tier_params) list" where
  "TIER_THRESHOLDS =
     [(Fin 15, ''comfortable'', \<lparr>tp_radius = 22 / 10, tp_font = 38, tp_padding = 35 / 100\<rparr>),
      (Fin 25, ''moderate'', \<lparr>tp_radius = 2, tp_font = 32, tp_padding = 28 / 100\<rparr>),
      (Fin 40, ''tight'', \<lparr>tp_radius = 18 / 10, tp_font = 28, tp_padding = 22 / 100\<rparr>),
      (Fin 60, ''very_tight'', \<lparr>tp_radius = 15 / 10, tp_font = 24, tp_padding = 18 / 100\<rparr>),
      (Infinite, ''warning'', \<lparr>tp_radius = 12 / 10, tp_font = 20, tp_padding = 15 / 100\<rparr>)]"

fun select_tier_loop :: "(threshold \<times> string \<times> tier_params) list \<Rightarrow> int \<Rightarrow> string \<times> tier_params" where
  "select_tier_loop [] union_size = (''warning'', snd (snd (last TIER_THRESHOLDS)))"
| "select_tier_loop ((threshold, tier, params) # rest) union_size =
     (if le_threshold union_size threshold then (tier, params)
      else select_tier_loop rest union_size)"

definition select_tier :: "int \<Rightarrow> string \<times> tier_params" where
  "select_tier union_size = select_tier_loop TIER_THRESHOLDS union_size"

subsection \<open>Geometry kernel\<close>

text \<open>
  \<^verbatim>\<open>_calculate_lens_area\<close>: the two guards first, then the formula inside
  \<^verbatim>\<open>try\<close>; the bare \<^verbatim>\<open>except\<close> turns every exception of the formula into 0.
\<close>

definition lens_formula :: "real \<Rightarrow> real \<Rightarrow> py_error + real" where
  "lens_formula R d =
     bind_res (py_div d (2 * R)) (\<lambda>q.
     bind_res (py_acos q) (\<lambda>a.
     let part1 = 2 * R\<^sup>2 * a in
     bind_res (py_sqrt (4 * R\<^sup>2 - d\<^sup>2)) (\<lambda>s.
     let part2 = (d / 2) * s in
     Inr (max 0 (part1 - part2)))))"

definition calculate_lens_area :: "real \<Rightarrow> real \<Rightarrow> real" where
  "calculate_lens_area R d =
     (if d \<ge> 2 * R then 0
      else if d \<le> 0 then pi * R\<^sup>2
      else (case lens_formula R d of Inr area \<Rightarrow> area | Inl e \<Rightarrow> 0))"

definition calculate_lens_dimensions :: "real \<Rightarrow> real \<Rightarrow> py_error + (real \<times> real)" where
  "calculate_lens_dimensions R d =
     (if d \<ge> 2 * R then Inr (0, 0)
      else bind_res (py_sqrt (R\<^sup>2 - (d / 2)\<^sup>2)) (\<lambda>s.
           let height = 2 * s; width = 2 * R - d in Inr (width, height)))"

subsection \<open>Separation solver\<close>

text \<open>
  The \<^verbatim>\<open>for\<close> loop of \<^verbatim>\<open>_solve_lens_separation\<close>, by recursion on the number of
  iterations left. The loop variable \<^verbatim>\<open>d_mid\<close> is unbound until the first iteration
  has run, so the state carries it as an option and the \<^verbatim>\<open>return d_mid\<close> after the
  loop raises when the loop never ran.
\<close>

fun bisect :: "real \<Rightarrow> real \<Rightarrow> real \<Rightarrow> nat \<Rightarrow> real \<Rightarrow> real \<Rightarrow> real option \<Rightarrow> py_error + real" where
  "bisect R required_area tolerance 0 d_min d_max d_mid =
     (case d_mid of None \<Rightarrow> Inl UnboundLocalError | Some d \<Rightarrow> Inr d)"
| "bisect R required_area tolerance (Suc n) d_min d_max d_mid_old =
     (let d_mid = (d_min + d_max) / 2;
          area_mid = calculate_lens_area R d_mid
      in if \<bar>area_mid - required_area\<bar> < tolerance then Inr d_mid
         else if area_mid > required_area
              then bisect R required_area tolerance n d_mid d_max (Some d_mid)
              else bisect R required_area tolerance n d_min d_mid (Some d_mid))"

definition solve_lens_separation :: "real \<Rightarrow> real \<Rightarrow> real \<Rightarrow> int \<Rightarrow> py_error + real" where
  "solve_lens_separation R required_area tolerance max_iterations =
     (let d_min = 0;
          d_max = 2 * R;
          max_possible = pi * R\<^sup>2
      in if required_area > max_possible * (95 / 100) then Inr (d_min * (11 / 10))
         else bisect R required_area tolerance (nat max_iterations) d_min d_max None)"

definition default_tolerance :: real where
  "default_tolerance = 5 / 1000"

definition default_max_iterations :: int where
  "default_max_iterations = 100"

subsection \<open>Region sizer\<close>

definition PACKING_EFFICIENCY :: real where
  "PACKING_EFFICIENCY = 75 / 100"

definition FONT_TO_MANIM_CONVERSION :: real where
  "FONT_TO_MANIM_CONVERSION = 95"

definition SAFETY_MARGIN :: real where
  "SAFETY_MARGIN = 115 / 100"

text \<open>The dictionary \<^verbatim>\<open>_calculate_lens_parameters\<close> returns.\<close>

record lens_params =
  lp_font_size :: int
  lp_element_size :: real
  lp_padding :: real
  lp_circle_separation :: real
  lp_area :: real
  lp_width :: real
  lp_height :: real

definition calculate_lens_parameters :: "int \<Rightarrow> real \<Rightarrow> int \<Rightarrow> real \<Rightarrow> py_error + lens_params" where
  "calculate_lens_parameters intersection_size base_radius base_font base_padding =
     (let element_size = real_of_int base_font / FONT_TO_MANIM_CONVERSION;
          element_footprint = (element_size + base_padding)\<^sup>2;
          required_area =
            (if intersection_size > 0
             then (real_of_int intersection_size * element_footprint) / PACKING_EFFICIENCY
                    * SAFETY_MARGIN
             else 1 / 10)
      in bind_res (solve_lens_separation base_radius required_area default_tolerance
                     default_max_iterations) (\<lambda>circle_sep.
         let actual_area = calculate_lens_area base_radius circle_sep in
         bind_res (calculate_lens_dimensions base_radius circle_sep) (\<lambda>(width, height).
         Inr \<lparr>lp_font_size = base_font, lp_element_size = element_size,
              lp_padding = base_padding, lp_circle_separation = circle_sep,
              lp_area = actual_area, lp_width = width, lp_height = height\<rparr>)))"

text \<open>
  The dictionary \<^verbatim>\<open>_calculate_crescent_parameters\<close> returns; \<^verbatim>\<open>radii\<close> is itself a
  dictionary with the keys \<^verbatim>\<open>'a_only'\<close> and \<^verbatim>\<open>'b_only'\<close>.
\<close>

record crescent_params =
  cp_font_size :: int
  cp_element_size :: real
  cp_padding :: real
  cp_radii :: "string \<rightharpoonup> real"

text \<open>
  The closure \<^verbatim>\<open>calc_radius\<close> reads \<^verbatim>\<open>element_footprint\<close> at the time of the call, so
  the footprint is an argument here.
\<close>

definition calc_radius :: "real \<Rightarrow> int \<Rightarrow> py_error + real" where
  "calc_radius element_footprint n_elements =
     (if n_elements = 0 then Inr (1 / 10)
      else let required_area = (real_of_int n_elements * element_footprint) / PACKING_EFFICIENCY
           in py_sqrt (required_area / pi))"

definition calculate_crescent_parameters ::
    "int \<Rightarrow> int \<Rightarrow> real \<Rightarrow> int \<Rightarrow> real \<Rightarrow> py_error + crescent_params" where
  "calculate_crescent_parameters a_only_size b_only_size base_radius base_font base_padding =
     (let element_size = real_of_int base_font / FONT_TO_MANIM_CONVERSION;
          element_footprint = (element_size + base_padding)\<^sup>2
      in bind_res (calc_radius element_footprint a_only_size) (\<lambda>r_a.
         bind_res (calc_radius element_footprint b_only_size) (\<lambda>r_b.
         let max_crescent_radius = base_radius * (65 / 100) in
         if max r_a r_b > max_crescent_radius
         then bind_res (py_div max_crescent_radius (max r_a r_b)) (\<lambda>q.
              let scale_factor = q * (9 / 10);
                  crescent_font = py_int (real_of_int base_font * scale_factor);
                  crescent_padding = base_padding * scale_factor;
                  crescent_element_size = real_of_int crescent_font / FONT_TO_MANIM_CONVERSION;
                  crescent_element_footprint = (crescent_element_size + crescent_padding)\<^sup>2
              in bind_res (calc_radius crescent_element_footprint a_only_size) (\<lambda>r_a'.
                 bind_res (calc_radius crescent_element_footprint b_only_size) (\<lambda>r_b'.
                 Inr \<lparr>cp_font_size = crescent_font, cp_element_size = crescent_element_size,
                      cp_padding = crescent_padding,
                      cp_radii = [''a_only'' \<mapsto> r_a', ''b_only'' \<mapsto> r_b']\<rparr>)))
         else Inr \<lparr>cp_font_size = base_font, cp_element_size = element_size,
                  cp_padding = base_padding,
                  cp_radii = [''a_only'' \<mapsto> r_a, ''b_only'' \<mapsto> r_b]\<rparr>)))"

subsection \<open>Layout\<close>

type_synonym vec3 = "real \<times> real \<times> real"

definition vadd :: "vec3 \<Rightarrow> vec3 \<Rightarrow> vec3" where
  "vadd u v = (case (u, v) of ((a, b, c), (x, y, z)) \<Rightarrow> (a + x, b + y, c + z))"

definition vsub :: "vec3 \<Rightarrow> vec3 \<Rightarrow> vec3" where
  "vsub u v = (case (u, v) of ((a, b, c), (x, y, z)) \<Rightarrow> (a - x, b - y, c - z))"

definition vdiv :: "vec3 \<Rightarrow> real \<Rightarrow> vec3" where
  "vdiv u k = (case u of (a, b, c) \<Rightarrow> (a / k, b / k, c / k))"

definition vnorm :: "vec3 \<Rightarrow> real" where
  \<comment> \<open>\<^verbatim>\<open>np.linalg.norm\<close>\<close>
  "vnorm u = (case u of (a, b, c) \<Rightarrow> sqrt (a\<^sup>2 + b\<^sup>2 + c\<^sup>2))"

text \<open>The one warning \<^verbatim>\<open>calculate_layout\<close> can append, with the two numbers its text shows.\<close>

datatype layout_warning = Different_font_sizes int int

record venn_layout =
  union_size :: int
  intersection_size :: int
  a_only_size :: int
  b_only_size :: int
  circle_radius :: real
  circle_separation :: real
  circle_a_center :: vec3
  circle_b_center :: vec3
  tier :: string
  lens_font_size :: int
  lens_element_size :: real
  lens_padding :: real
  lens_area :: real
  lens_width :: real
  lens_height :: real
  crescent_font_size :: int
  crescent_element_size :: real
  crescent_padding :: real
  crescent_radii :: "string \<rightharpoonup> real"
  is_valid :: bool
  warnings :: "layout_warning list"

definition calculate_layout :: "'a set \<Rightarrow> 'a set \<Rightarrow> py_error + venn_layout" where
  "calculate_layout set_a set_b =
     (let union = set_a \<union> set_b;
          intersection = set_a \<inter> set_b;
          a_only = set_a - set_b;
          b_only = set_b - set_a;
          union_size = int (card union);
          intersection_size = int (card intersection);
          a_only_size = int (card a_only);
          b_only_size = int (card b_only);
          (tier, tier_params) = select_tier union_size
      in bind_res (calculate_lens_parameters intersection_size (tp_radius tier_params)
                     (tp_font tier_params) (tp_padding tier_params)) (\<lambda>lens_params.
         bind_res (calculate_crescent_parameters a_only_size b_only_size (tp_radius tier_params)
                     (tp_font tier_params) (tp_padding tier_params)) (\<lambda>crescent_params.
         let circle_sep = lp_circle_separation lens_params;
             circle_a_center = (- circle_sep / 2, 0, 0);
             circle_b_center = (circle_sep / 2, 0, 0);
             warnings = (if lp_font_size lens_params \<noteq> cp_font_size crescent_params
                         then [Different_font_sizes (lp_font_size lens_params)
                                 (cp_font_size crescent_params)]
                         else []);
             is_valid = True
         in Inr \<lparr>union_size = union_size,
                 intersection_size = intersection_size,
                 a_only_size = a_only_size,
                 b_only_size = b_only_size,
                 circle_radius = tp_radius tier_params,
                 circle_separation = circle_sep,
                 circle_a_center = circle_a_center,
                 circle_b_center = circle_b_center,
                 tier = tier,
                 lens_font_size = lp_font_size lens_params,
                 lens_element_size = lp_element_size lens_params,
                 lens_padding = lp_padding lens_params,
                 lens_area = lp_area lens_params,
                 lens_width = lp_width lens_params,
                 lens_height = lp_height lens_params,
                 crescent_font_size = cp_font_size crescent_params,
                 crescent_element_size = cp_element_size crescent_params,
                 crescent_padding = cp_padding crescent_params,
                 crescent_radii = cp_radii crescent_params,
                 is_valid = is_valid,
                 warnings = warnings\<rparr>)))"

subsection \<open>Packing engine\<close>

text \<open>
  A lattice point of the two nested loops: \<^verbatim>\<open>x = col * hex_spacing_x\<close>,
  \<^verbatim>\<open>y = row * hex_spacing_y\<close>, and odd rows shifted by half a horizontal spacing.
  Python's \<^verbatim>\<open>row % 2\<close> is 0 or 1 for negative rows too, as \<open>mod\<close> on \<^typ>\<open>int\<close>.
\<close>

definition hex_point :: "real \<Rightarrow> real \<Rightarrow> int \<times> int \<Rightarrow> real \<times> real" where
  "hex_point hex_spacing_x hex_spacing_y rc =
     (case rc of (row, col) \<Rightarrow>
        let x = real_of_int col * hex_spacing_x;
            y = real_of_int row * hex_spacing_y;
            x = (if row mod 2 \<noteq> 0 then x + hex_spacing_x / 2 else x)
        in (x, y))"

text \<open>
  The loops \<^verbatim>\<open>for row in range(-rows, rows + 1): for col in range(-cols, cols + 1)\<close>
  visit the pairs of \<open>List.product [- rows..rows] [- cols..cols]\<close> in this order.
\<close>

definition lattice :: "int \<Rightarrow> int \<Rightarrow> (int \<times> int) list" where
  "lattice rows cols = List.product [- rows..rows] [- cols..cols]"

definition circle_candidates ::
    "vec3 \<Rightarrow> real \<Rightarrow> real \<Rightarrow> real \<Rightarrow> int \<Rightarrow> int \<Rightarrow> (real \<times> vec3) list" where
  "circle_candidates center radius hex_spacing_x hex_spacing_y rows cols =
     filter (\<lambda>(dist, pos). dist \<le> radius)
       (map (\<lambda>rc. case hex_point hex_spacing_x hex_spacing_y rc of (x, y) \<Rightarrow>
               let pos = vadd center (x, y, 0);
                   dist = vnorm (vsub pos center)
               in (dist, pos))
          (lattice rows cols))"

definition ellipse_candidates ::
    "vec3 \<Rightarrow> real \<Rightarrow> real \<Rightarrow> real \<Rightarrow> real \<Rightarrow> int \<Rightarrow> int \<Rightarrow> (real \<times> vec3) list" where
  "ellipse_candidates center width height hex_spacing_x hex_spacing_y rows cols =
     map (\<lambda>(x, y). let pos = vadd center (x, y, 0);
                       dist = vnorm (vsub pos center)
                   in (dist, pos))
       (filter (\<lambda>(x, y). let norm_x = (if width > 0 then 2 * x / width else 0);
                              norm_y = (if height > 0 then 2 * y / height else 0)
                          in norm_x\<^sup>2 + norm_y\<^sup>2 \<le> 1)
          (map (hex_point hex_spacing_x hex_spacing_y) (lattice rows cols)))"

text \<open>
  \<^verbatim>\<open>for i, elem in enumerate(elements)\<close>: the element at index \<open>i\<close> takes the
  \<open>i\<close>-th candidate, or the center once the candidates are exhausted; a later
  assignment to the same key overwrites an earlier one.
\<close>

fun assign_positions ::
    "'a list \<Rightarrow> nat \<Rightarrow> (real \<times> vec3) list \<Rightarrow> vec3 \<Rightarrow> ('a \<rightharpoonup> vec3) \<Rightarrow> ('a \<rightharpoonup> vec3)" where
  "assign_positions [] i positions_list center positions = positions"
| "assign_positions (elem # elements) i positions_list center positions =
     assign_positions elements (Suc i) positions_list center
       (positions(elem \<mapsto> (if i < length positions_list then snd (positions_list ! i)
                              else center)))"

text \<open>
  The candidate list of \<^verbatim>\<open>_hexagonal_pack\<close> after \<^verbatim>\<open>positions_list.sort\<close>, a stable sort
  on the distance. The two divisions raise when the spacing is zero.
\<close>

definition hexagonal_candidates ::
    "vec3 \<Rightarrow> real \<Rightarrow> real \<Rightarrow> real \<Rightarrow> py_error + (real \<times> vec3) list" where
  "hexagonal_candidates center radius elem_size padding =
     (let spacing = elem_size + padding;
          hex_spacing_x = spacing;
          hex_spacing_y = spacing * (866 / 1000)
      in bind_res (py_div (2 * radius) hex_spacing_x) (\<lambda>qx.
         let cols = py_int qx + 1 in
         bind_res (py_div (2 * radius) hex_spacing_y) (\<lambda>qy.
         let rows = py_int qy + 1;
             positions_list = circle_candidates center radius hex_spacing_x hex_spacing_y rows cols
         in Inr (sort_key fst positions_list))))"

definition hexagonal_pack ::
    "'a list \<Rightarrow> vec3 \<Rightarrow> real \<Rightarrow> real \<Rightarrow> real \<Rightarrow> py_error + ('a \<rightharpoonup> vec3)" where
  "hexagonal_pack elements center radius elem_size padding =
     bind_res (hexagonal_candidates center radius elem_size padding) (\<lambda>positions_list.
       Inr (assign_positions elements 0 positions_list center Map.empty))"

definition elliptical_candidates ::
    "vec3 \<Rightarrow> real \<Rightarrow> real \<Rightarrow> real \<Rightarrow> real \<Rightarrow> py_error + (real \<times> vec3) list" where
  "elliptical_candidates center width height elem_size padding =
     (let spacing = elem_size + padding;
          hex_spacing_x = spacing;
          hex_spacing_y = spacing * (866 / 1000)
      in bind_res (py_div width hex_spacing_x) (\<lambda>qx.
         let cols = py_int qx + 2 in
         bind_res (py_div height hex_spacing_y) (\<lambda>qy.
         let rows = py_int qy + 2;
             positions_list =
               ellipse_candidates center width height hex_spacing_x hex_spacing_y rows cols
         in Inr (sort_key fst positions_list))))"

definition elliptical_pack ::
    "'a list \<Rightarrow> vec3 \<Rightarrow> real \<Rightarrow> real \<Rightarrow> real \<Rightarrow> real \<Rightarrow> py_error + ('a \<rightharpoonup> vec3)" where
  "elliptical_pack elements center width height elem_size padding =
     bind_res (elliptical_candidates center width height elem_size padding) (\<lambda>positions_list.
       Inr (assign_positions elements 0 positions_list center Map.empty))"

subsection \<open>Packing the three regions\<close>

definition lookup :: "(string \<rightharpoonup> real) \<Rightarrow> string \<Rightarrow> py_error + real" where
  "lookup d k = (case d k of None \<Rightarrow> Inl KeyError | Some v \<Rightarrow> Inr v)"

definition a_region_center :: "venn_layout \<Rightarrow> vec3" where
  "a_region_center layout =
     vadd (circle_a_center layout) (- circle_radius layout * (35 / 100), 0, 0)"

definition lens_center :: "venn_layout \<Rightarrow> vec3" where
  "lens_center layout = vdiv (vadd (circle_a_center layout) (circle_b_center layout)) 2"

definition b_region_center :: "venn_layout \<Rightarrow> vec3" where
  "b_region_center layout =
     vadd (circle_b_center layout) (circle_radius layout * (35 / 100), 0, 0)"

text \<open>
  \<^verbatim>\<open>pack_elements\<close>. The argument \<open>to_list\<close> stands for \<^verbatim>\<open>list(s)\<close> on a set, whose
  order is the hash table's; \<^verbatim>\<open>sorted\<close> is a stable sort. Each \<^verbatim>\<open>positions.update\<close>
  is a map addition, the right operand winning.
\<close>

definition pack_elements ::
    "('a::linorder set \<Rightarrow> 'a list) \<Rightarrow> 'a list \<Rightarrow> 'a set \<Rightarrow> 'a set \<Rightarrow> venn_layout
       \<Rightarrow> py_error + ('a \<rightharpoonup> vec3)" where
  "pack_elements to_list elements set_a set_b layout =
     (let intersection = set_a \<inter> set_b;
          a_only = set_a - set_b;
          b_only = set_b - set_a;
          positions = Map.empty
      in bind_res
           (if a_only \<noteq> {}
            then bind_res (lookup (crescent_radii layout) ''a_only'') (\<lambda>r.
                 bind_res (hexagonal_pack (sort (to_list a_only)) (a_region_center layout) r
                             (crescent_element_size layout) (crescent_padding layout)) (\<lambda>packed.
                 Inr (positions ++ packed)))
            else Inr positions) (\<lambda>positions.
         bind_res
           (if intersection \<noteq> {}
            then bind_res (elliptical_pack (sort (to_list intersection)) (lens_center layout)
                             (lens_width layout) (lens_height layout)
                             (lens_element_size layout) (lens_padding layout)) (\<lambda>packed.
                 Inr (positions ++ packed))
            else Inr positions) (\<lambda>positions.
         bind_res
           (if b_only \<noteq> {}
            then bind_res (lookup (crescent_radii layout) ''b_only'') (\<lambda>r.
                 bind_res (hexagonal_pack (sort (to_list b_only)) (b_region_center layout) r
                             (crescent_element_size layout) (crescent_padding layout)) (\<lambda>packed.
                 Inr (positions ++ packed)))
            else Inr positions) (\<lambda>positions.
         Inr positions))))"

text \<open>
  What the model asks of \<^verbatim>\<open>list(s)\<close>: it enumerates the elements of the set, each once.
\<close>

definition enumerates :: "('a set \<Rightarrow> 'a list) \<Rightarrow> 'a set \<Rightarrow> bool" where
  "enumerates to_list s = (set (to_list s) = s \<and> distinct (to_list s))"

definition lists_sets :: "('a set \<Rightarrow> 'a list) \<Rightarrow> bool" where
  "lists_sets to_list = (\<forall>s. finite s \<longrightarrow> enumerates to_list s)"

subsection \<open>The bisection as the specification describes it\<close>




subsection \<open>Auxiliary functions of the analysis\<close>



text \<open>
  A candidate of either loop is \<open>candidate center (hex_point \<dots> (row, col))\<close>, and after
  the sort both candidate lists have the shape \<open>sorted_candidates\<close>, with the test of the
  circle or of the ellipse as \<open>P\<close>.
\<close>

definition place :: "vec3 \<Rightarrow> real \<times> real \<Rightarrow> vec3" where
  "place center xy = vadd center (fst xy, snd xy, 0)"

definition candidate :: "vec3 \<Rightarrow> real \<times> real \<Rightarrow> real \<times> vec3" where
  "candidate center xy = (vnorm (vsub (place center xy) center), place center xy)"

definition in_ellipse :: "real \<Rightarrow> real \<Rightarrow> real \<times> real \<Rightarrow> bool" where
  "in_ellipse width height xy =
     ((if width > 0 then 2 * fst xy / width else 0)\<^sup>2
      + (if height > 0 then 2 * snd xy / height else 0)\<^sup>2 \<le> 1)"

definition sorted_candidates ::
    "vec3 \<Rightarrow> real \<Rightarrow> ((int \<times> int) \<Rightarrow> bool) \<Rightarrow> int \<Rightarrow> int \<Rightarrow> (real \<times> vec3) list" where
  "sorted_candidates center s P rows cols =
     sort_key fst (map (candidate center \<circ> hex_point s (s * (866 / 1000)))
                     (filter P (lattice rows cols)))"

subsection \<open>The two parameter sets of a layout\<close>

text \<open>
  Section 3 of the specification: a layout carries two parameter sets, the lens
  parameters (font size, element size, padding, achieved area, width, height) and the
  crescent parameters (font size, element size, padding, the two radii).
\<close>

definition lens_view :: "venn_layout \<Rightarrow> int \<times> real \<times> real \<times> real \<times> real \<times> real" where
  "lens_view layout =
     (lens_font_size layout, lens_element_size layout, lens_padding layout,
      lens_area layout, lens_width layout, lens_height layout)"

definition crescent_view :: "venn_layout \<Rightarrow> int \<times> real \<times> real \<times> (string \<rightharpoonup> real)" where
  "crescent_view layout =
     (crescent_font_size layout, crescent_element_size layout, crescent_padding layout,
      crescent_radii layout)"

subsection \<open>The packing properties as the specification states them\<close>

text \<open>
  Section 4.5: a point is inside the lens bound when it passes the normalised ellipse
  test \<open>(2x / width)\<^sup>2 + (2y / height)\<^sup>2 \<le> 1\<close> relative to the center. Section 8, packing
  completeness: every element has a position inside the boundary, and two different
  elements have different positions, at least \<open>min_sep\<close> apart.
\<close>

definition inside_ellipse :: "vec3 \<Rightarrow> real \<Rightarrow> real \<Rightarrow> vec3 \<Rightarrow> bool" where
  "inside_ellipse center width height p =
     (case vsub p center of (x, y, z) \<Rightarrow> (2 * x / width)\<^sup>2 + (2 * y / height)\<^sup>2 \<le> 1)"

definition well_packed :: "'a list \<Rightarrow> ('a \<rightharpoonup> vec3) \<Rightarrow> (vec3 \<Rightarrow> bool) \<Rightarrow> real \<Rightarrow> bool" where
  "well_packed elements m inside min_sep =
     ((\<forall>e\<in>set elements. \<exists>p. m e = Some p \<and> inside p)
      \<and> (\<forall>e1\<in>set elements. \<forall>e2\<in>set elements. e1 \<noteq> e2 \<longrightarrow>
            (\<exists>p1 p2. m e1 = Some p1 \<and> m e2 = Some p2 \<and> p1 \<noteq> p2
                     \<and> min_sep \<le> vnorm (vsub p1 p2))))"

text \<open>
  Section 4.5, the fallback: an element whose index is beyond the candidate count is at
  the exact center of its region.
\<close>

definition overflow_at_center ::
    "'a list \<Rightarrow> (real \<times> vec3) list \<Rightarrow> vec3 \<Rightarrow> ('a \<rightharpoonup> vec3) \<Rightarrow> bool" where
  "overflow_at_center elements candidates center m =
     (\<forall>j<length elements. length candidates \<le> j \<longrightarrow> m (elements ! j) = Some center)"

section \<open>Properties\<close>

subsection \<open>Tiering\<close>

lemma select_tier_cases:
  "select_tier n =
     (if n \<le> 15 then (''comfortable'', \<lparr>tp_radius = 22 / 10, tp_font = 38, tp_padding = 35 / 100\<rparr>)
      else if n \<le> 25 then (''moderate'', \<lparr>tp_radius = 2, tp_font = 32, tp_padding = 28 / 100\<rparr>)
      else if n \<le> 40 then (''tight'', \<lparr>tp_radius = 18 / 10, tp_font = 28, tp_padding = 22 / 100\<rparr>)
      else if n \<le> 60 then (''very_tight'', \<lparr>tp_radius = 15 / 10, tp_font = 24, tp_padding = 18 / 100\<rparr>)
      else (''warning'', \<lparr>tp_radius = 12 / 10, tp_font = 20, tp_padding = 15 / 100\<rparr>))"
  by (simp add: select_tier_def TIER_THRESHOLDS_def)

text \<open>
  Claim C9. The tier is a function of the union size alone: \<open>comfortable\<close> up to 15,
  \<open>moderate\<close> up to 25, \<open>tight\<close> up to 40, \<open>very_tight\<close> up to 60 and \<open>warning\<close>
  beyond, the first matching threshold winning; and the radius, the font size and the
  padding of the selected tier never grow when the union size grows.
\<close>

theorem select_tier_policy:
  "fst (select_tier n) =
     (if n \<le> 15 then ''comfortable''
      else if n \<le> 25 then ''moderate''
      else if n \<le> 40 then ''tight''
      else if n \<le> 60 then ''very_tight''
      else ''warning'')
   \<and> (n \<le> m \<longrightarrow>
        tp_radius (snd (select_tier m)) \<le> tp_radius (snd (select_tier n))
      \<and> tp_font (snd (select_tier m)) \<le> tp_font (snd (select_tier n))
      \<and> tp_padding (snd (select_tier m)) \<le> tp_padding (snd (select_tier n)))"
  by (simp add: select_tier_cases)

theorem select_tier_policy_witness:
  "fst (select_tier 34) = ''tight''
   \<and> tp_radius (snd (select_tier 34)) \<le> tp_radius (snd (select_tier 8))
   \<and> tp_font (snd (select_tier 34)) \<le> tp_font (snd (select_tier 8))
   \<and> tp_padding (snd (select_tier 34)) \<le> tp_padding (snd (select_tier 8))"
  using select_tier_policy [of 34 34] select_tier_policy [of 8 34]
  by (simp add: select_tier_cases)

subsection \<open>Geometry kernel\<close>

















subsection \<open>Separation solver\<close>

lemma bisect_range:
  assumes "0 \<le> d_min" "d_min \<le> d_max" "d_max \<le> 2 * R"
    and "n = 0 \<Longrightarrow> \<exists>d. d_mid = Some d \<and> 0 \<le> d \<and> d \<le> 2 * R"
  shows "\<exists>d. bisect R A tol n d_min d_max d_mid = Inr d \<and> 0 \<le> d \<and> d \<le> 2 * R"
  using assms
proof (induction n arbitrary: d_min d_max d_mid)
  case 0
  then show ?case by auto
next
  case (Suc n)
  let ?m = "(d_min + d_max) / 2"
  have m: "0 \<le> ?m" "d_min \<le> ?m" "?m \<le> d_max" "?m \<le> 2 * R"
    using Suc.prems(1-3) by simp_all
  have s: "\<exists>d. Some ?m = Some d \<and> 0 \<le> d \<and> d \<le> 2 * R"
    using m by blast
  have up: "\<exists>d. bisect R A tol n ?m d_max (Some ?m) = Inr d \<and> 0 \<le> d \<and> d \<le> 2 * R"
    using Suc.IH [of ?m d_max "Some ?m"] m Suc.prems(3) s by blast
  have down: "\<exists>d. bisect R A tol n d_min ?m (Some ?m) = Inr d \<and> 0 \<le> d \<and> d \<le> 2 * R"
    using Suc.IH [of d_min ?m "Some ?m"] m Suc.prems(1) s by blast
  show ?case
  proof (cases "\<bar>calculate_lens_area R ?m - A\<bar> < tol")
    case True
    then have "bisect R A tol (Suc n) d_min d_max d_mid = Inr ?m"
      by (simp add: Let_def)
    then show ?thesis using m by blast
  next
    case False
    show ?thesis
    proof (cases "calculate_lens_area R ?m > A")
      case True
      then have "bisect R A tol (Suc n) d_min d_max d_mid = bisect R A tol n ?m d_max (Some ?m)"
        using False by (simp add: Let_def)
      then show ?thesis using up by simp
    next
      case le: False
      then have "bisect R A tol (Suc n) d_min d_max d_mid = bisect R A tol n d_min ?m (Some ?m)"
        using False by (simp add: Let_def)
      then show ?thesis using down by simp
    qed
  qed
qed








subsection \<open>Packing engine\<close>

lemma vsub_vadd [simp]: "vsub (vadd c v) c = v"
  by (cases c; cases v) (simp add: vsub_def vadd_def)

lemma vadd_inject [simp]: "vadd c u = vadd c v \<longleftrightarrow> u = v"
  by (cases c; cases u; cases v) (simp add: vadd_def)

lemma vadd_zero [simp]: "vadd c (0, 0, 0) = c"
  by (cases c) (simp add: vadd_def)

lemma vsub_vadd_vadd: "vsub (vadd c u) (vadd c v) = vsub u v"
  by (cases c; cases u; cases v) (simp add: vsub_def vadd_def)

lemma hex_point_eq:
  "hex_point sx sy (row, col) =
     (sx * (real_of_int (2 * col + row mod 2) / 2), sy * real_of_int row)"
proof -
  have "row mod 2 = 0 \<or> row mod 2 = 1" by presburger
  then show ?thesis
    by (auto simp: hex_point_def Let_def field_simps)
qed

lemma hex_point_inj:
  assumes "sx \<noteq> 0" "sy \<noteq> 0"
  shows "inj (hex_point sx sy)"
proof (rule injI)
  fix p q :: "int \<times> int"
  assume e: "hex_point sx sy p = hex_point sx sy q"
  obtain r1 c1 where p: "p = (r1, c1)" by (cases p)
  obtain r2 c2 where q: "q = (r2, c2)" by (cases q)
  from e have y: "sy * real_of_int r1 = sy * real_of_int r2"
    and x: "sx * (real_of_int (2 * c1 + r1 mod 2) / 2) = sx * (real_of_int (2 * c2 + r2 mod 2) / 2)"
    unfolding p q hex_point_eq by simp_all
  from y assms have r: "r1 = r2" by simp
  from x assms have "real_of_int (2 * c1 + r1 mod 2) = real_of_int (2 * c2 + r2 mod 2)" by simp
  then have "2 * c1 + r1 mod 2 = 2 * c2 + r2 mod 2" by linarith
  with r have "c1 = c2" by simp
  with r show "p = q" by (simp add: p q)
qed

lemma lattice_gap:
  fixes D E :: int
  assumes "E = 0 \<Longrightarrow> 4 \<le> D\<^sup>2" "E\<^sup>2 = 1 \<Longrightarrow> D \<noteq> 0"
  shows "(999956 / 1000000 :: real) \<le> (real_of_int D / 2)\<^sup>2 + ((866 / 1000) * real_of_int E)\<^sup>2"
proof -
  consider "E = 0" | "E\<^sup>2 = 1" | "4 \<le> E\<^sup>2"
  proof -
    have "0 \<le> E\<^sup>2" by simp
    moreover have "E\<^sup>2 \<noteq> 2" "E\<^sup>2 \<noteq> 3"
    proof -
      have "\<bar>E\<bar> \<le> 1 \<or> 2 \<le> \<bar>E\<bar>" by linarith
      then have "\<bar>E\<bar>\<^sup>2 \<le> 1 \<or> 4 \<le> \<bar>E\<bar>\<^sup>2"
      proof
        assume "\<bar>E\<bar> \<le> 1"
        then have "\<bar>E\<bar>\<^sup>2 \<le> 1\<^sup>2" by (intro power_mono) simp_all
        then show ?thesis by simp
      next
        assume "2 \<le> \<bar>E\<bar>"
        then have "2\<^sup>2 \<le> \<bar>E\<bar>\<^sup>2" by (intro power_mono) simp_all
        then show ?thesis by simp
      qed
      then show "E\<^sup>2 \<noteq> 2" "E\<^sup>2 \<noteq> 3" by auto
    qed
    ultimately have "E\<^sup>2 = 0 \<or> E\<^sup>2 = 1 \<or> 4 \<le> E\<^sup>2" by linarith
    then show ?thesis using that by auto
  qed
  note cases = this
  have d: "(real_of_int D / 2)\<^sup>2 = (real_of_int D)\<^sup>2 / 4"
    by (simp add: power_divide)
  have e: "((866 / 1000) * real_of_int E)\<^sup>2 = (749956 / 1000000) * (real_of_int E)\<^sup>2"
    by (simp add: power_mult_distrib power_divide)
  have nn: "0 \<le> (real_of_int D)\<^sup>2" "0 \<le> (real_of_int E)\<^sup>2" by simp_all
  from cases show ?thesis
  proof cases
    case 1
    then have "4 \<le> D\<^sup>2" by (rule assms(1))
    then have "(4::real) \<le> (real_of_int D)\<^sup>2"
      by (metis of_int_le_iff of_int_numeral of_int_power)
    then show ?thesis unfolding d e using nn by linarith
  next
    case 2
    then have "D \<noteq> 0" by (rule assms(2))
    then have "0 < D\<^sup>2" by simp
    then have "1 \<le> D\<^sup>2" by linarith
    then have "(1::real) \<le> (real_of_int D)\<^sup>2"
      by (metis of_int_le_iff of_int_1 of_int_power)
    moreover have "(real_of_int E)\<^sup>2 = 1"
      using 2 by (metis of_int_1 of_int_power)
    ultimately show ?thesis unfolding d e by linarith
  next
    case 3
    then have "(4::real) \<le> (real_of_int E)\<^sup>2"
      by (metis of_int_le_iff of_int_numeral of_int_power)
    then show ?thesis unfolding d e using nn by linarith
  qed
qed

lemma hex_point_separation:
  assumes "p \<noteq> q"
  shows "(999956 / 1000000) * s\<^sup>2 \<le>
           (fst (hex_point s (s * (866 / 1000)) p) - fst (hex_point s (s * (866 / 1000)) q))\<^sup>2
         + (snd (hex_point s (s * (866 / 1000)) p) - snd (hex_point s (s * (866 / 1000)) q))\<^sup>2"
proof -
  obtain r1 c1 where p: "p = (r1, c1)" by (cases p)
  obtain r2 c2 where q: "q = (r2, c2)" by (cases q)
  define D where "D = (2 * c1 + r1 mod 2) - (2 * c2 + r2 mod 2)"
  define E where "E = r1 - r2"
  have a: "4 \<le> D\<^sup>2" if "E = 0"
  proof -
    from that have r: "r1 = r2" by (simp add: E_def)
    with assms have "c1 \<noteq> c2" by (simp add: p q)
    then have "\<bar>c1 - c2\<bar> \<ge> 1" by linarith
    then have "1\<^sup>2 \<le> \<bar>c1 - c2\<bar>\<^sup>2" by (intro power_mono) simp_all
    then have "1 \<le> (c1 - c2)\<^sup>2" by simp
    moreover have "D = 2 * (c1 - c2)" using r by (simp add: D_def)
    then have "D\<^sup>2 = 4 * (c1 - c2)\<^sup>2" by (simp only: power_mult_distrib) simp
    ultimately show ?thesis by linarith
  qed
  have b: "D \<noteq> 0" if "E\<^sup>2 = 1"
  proof -
    from that have "E = 1 \<or> E = - 1"
      by (simp add: power2_eq_1_iff)
    then have "r1 mod 2 \<noteq> r2 mod 2" unfolding E_def by presburger
    then show ?thesis unfolding D_def by presburger
  qed
  have "(999956 / 1000000 :: real) \<le> (real_of_int D / 2)\<^sup>2 + ((866 / 1000) * real_of_int E)\<^sup>2"
    using a b by (rule lattice_gap)
  then have "(999956 / 1000000) * s\<^sup>2
      \<le> ((real_of_int D / 2)\<^sup>2 + ((866 / 1000) * real_of_int E)\<^sup>2) * s\<^sup>2"
    by (intro mult_right_mono) simp_all
  also have "\<dots> = (s * (real_of_int (2 * c1 + r1 mod 2) / 2) - s * (real_of_int (2 * c2 + r2 mod 2) / 2))\<^sup>2
          + (s * (866 / 1000) * real_of_int r1 - s * (866 / 1000) * real_of_int r2)\<^sup>2"
  proof -
    define u1 u2 e1 e2 where "u1 = real_of_int (2 * c1 + r1 mod 2)"
      and "u2 = real_of_int (2 * c2 + r2 mod 2)"
      and "e1 = real_of_int r1" and "e2 = real_of_int r2"
    have D: "real_of_int D = u1 - u2" and E: "real_of_int E = e1 - e2"
      by (simp_all add: D_def E_def u1_def u2_def e1_def e2_def)
    have x: "s * (u1 / 2) - s * (u2 / 2) = s * ((u1 - u2) / 2)"
      by (simp add: algebra_simps diff_divide_distrib)
    have y: "s * (866 / 1000) * e1 - s * (866 / 1000) * e2 = s * ((866 / 1000) * (e1 - e2))"
      by (simp add: algebra_simps)
    have "(((u1 - u2) / 2)\<^sup>2 + ((866 / 1000) * (e1 - e2))\<^sup>2) * s\<^sup>2
          = (s * (u1 / 2) - s * (u2 / 2))\<^sup>2 + (s * (866 / 1000) * e1 - s * (866 / 1000) * e2)\<^sup>2"
      unfolding x y power_mult_distrib [of s] by (simp only: distrib_left distrib_right mult.commute)
    then show ?thesis
      unfolding D E u1_def u2_def e1_def e2_def .
  qed
  finally show ?thesis by (simp add: p q hex_point_eq)
qed

lemma vnorm_le_iff: "0 \<le> r \<Longrightarrow> vnorm (a, b, c) \<le> r \<longleftrightarrow> a\<^sup>2 + b\<^sup>2 + c\<^sup>2 \<le> r\<^sup>2"
proof -
  assume r: "0 \<le> r"
  have "sqrt (a\<^sup>2 + b\<^sup>2 + c\<^sup>2) \<le> r \<longleftrightarrow> sqrt (a\<^sup>2 + b\<^sup>2 + c\<^sup>2) \<le> sqrt (r\<^sup>2)"
    using r by simp
  also have "\<dots> \<longleftrightarrow> a\<^sup>2 + b\<^sup>2 + c\<^sup>2 \<le> r\<^sup>2"
    by (rule real_sqrt_le_iff)
  finally show ?thesis by (simp add: vnorm_def)
qed

lemma circle_candidates_repr:
  "circle_candidates center r sx sy rows cols =
     map (candidate center \<circ> hex_point sx sy)
       (filter (\<lambda>rc. fst (candidate center (hex_point sx sy rc)) \<le> r) (lattice rows cols))"
  by (simp add: circle_candidates_def filter_map comp_def candidate_def place_def Let_def
      split_beta)

lemma ellipse_candidates_repr:
  "ellipse_candidates center w h sx sy rows cols =
     map (candidate center \<circ> hex_point sx sy)
       (filter (\<lambda>rc. in_ellipse w h (hex_point sx sy rc)) (lattice rows cols))"
  by (simp add: ellipse_candidates_def filter_map comp_def candidate_def place_def Let_def
      split_beta in_ellipse_def)

lemma place_inj: "inj (place center)"
  by (rule injI) (auto simp: place_def intro: prod_eqI)

lemma distinct_lattice: "distinct (lattice rows cols)"
  by (simp add: lattice_def distinct_product)

lemma distinct_positions_unsorted:
  assumes "sx \<noteq> 0" "sy \<noteq> 0"
  shows "distinct (map snd (map (candidate center \<circ> hex_point sx sy) (filter P (lattice rows cols))))"
proof -
  have "snd \<circ> (candidate center \<circ> hex_point sx sy) = place center \<circ> hex_point sx sy"
    by (rule ext) (simp add: candidate_def)
  moreover have "inj (place center \<circ> hex_point sx sy)"
    using place_inj hex_point_inj [OF assms] by (rule inj_compose)
  ultimately have "inj_on (snd \<circ> (candidate center \<circ> hex_point sx sy))
                     (set (filter P (lattice rows cols)))"
    by (metis inj_on_subset subset_UNIV)
  then have "distinct (map (snd \<circ> (candidate center \<circ> hex_point sx sy))
                     (filter P (lattice rows cols)))"
    unfolding distinct_map using distinct_lattice [of rows cols] by simp
  then show ?thesis by (simp only: map_map)
qed

lemma distinct_map_insort_key:
  "distinct (map g (insort_key f x xs)) = (g x \<notin> g ` set xs \<and> distinct (map g xs))"
  by (induction xs) (auto simp: set_insort_key)

lemma distinct_map_sort_key:
  "distinct (map g (sort_key f xs)) = distinct (map g xs)"
  by (induction xs) (simp_all add: distinct_map_insort_key)

lemma sorted_candidates_distinct:
  assumes "s \<noteq> 0"
  shows "distinct (map snd (sorted_candidates center s P rows cols))"
  unfolding sorted_candidates_def distinct_map_sort_key
  using assms by (intro distinct_positions_unsorted) simp_all

lemma sorted_candidates_nth:
  assumes "i < length (sorted_candidates center s P rows cols)"
  shows "\<exists>rc. P rc \<and> sorted_candidates center s P rows cols ! i
                 = candidate center (hex_point s (s * (866 / 1000)) rc)"
proof -
  have "sorted_candidates center s P rows cols ! i \<in> set (sorted_candidates center s P rows cols)"
    using assms by (rule nth_mem)
  then show ?thesis by (auto simp: sorted_candidates_def)
qed

lemma vnorm_place_diff:
  "vnorm (vsub (place center p) (place center q))
     = sqrt ((fst p - fst q)\<^sup>2 + (snd p - snd q)\<^sup>2)"
  by (cases center) (simp add: place_def vadd_def vsub_def vnorm_def)

lemma sorted_candidates_separated:
  assumes "0 < s" "i < length (sorted_candidates center s P rows cols)"
    "j < length (sorted_candidates center s P rows cols)" "i \<noteq> j"
  shows "snd (sorted_candidates center s P rows cols ! i)
           \<noteq> snd (sorted_candidates center s P rows cols ! j)
       \<and> (99997 / 100000) * s
           \<le> vnorm (vsub (snd (sorted_candidates center s P rows cols ! i))
                         (snd (sorted_candidates center s P rows cols ! j)))"
proof -
  let ?cs = "sorted_candidates center s P rows cols"
  let ?hp = "hex_point s (s * (866 / 1000))"
  obtain p where p: "?cs ! i = candidate center (?hp p)"
    using sorted_candidates_nth [OF assms(2)] by blast
  obtain q where q: "?cs ! j = candidate center (?hp q)"
    using sorted_candidates_nth [OF assms(3)] by blast
  have d: "distinct (map snd ?cs)"
    using assms(1) by (intro sorted_candidates_distinct) simp
  have ne: "snd (?cs ! i) \<noteq> snd (?cs ! j)"
    using d assms(2-4) by (simp add: distinct_conv_nth)
  then have "p \<noteq> q" using p q by auto
  then have "(999956 / 1000000) * s\<^sup>2
      \<le> (fst (?hp p) - fst (?hp q))\<^sup>2 + (snd (?hp p) - snd (?hp q))\<^sup>2"
    by (rule hex_point_separation)
  moreover have "((99997 / 100000) * s)\<^sup>2 \<le> (999956 / 1000000) * s\<^sup>2"
    by (simp add: power_mult_distrib power_divide)
  ultimately have "((99997 / 100000) * s)\<^sup>2
      \<le> (fst (?hp p) - fst (?hp q))\<^sup>2 + (snd (?hp p) - snd (?hp q))\<^sup>2"
    by linarith
  then have "(99997 / 100000) * s
      \<le> sqrt ((fst (?hp p) - fst (?hp q))\<^sup>2 + (snd (?hp p) - snd (?hp q))\<^sup>2)"
    using assms(1) by (intro real_le_rsqrt)
  then show ?thesis
    using ne by (simp add: p q candidate_def vnorm_place_diff)
qed

lemma assign_positions_notin:
  "x \<notin> set es \<Longrightarrow> assign_positions es i pl c m x = m x"
  by (induction es arbitrary: i m) simp_all

lemma dom_assign_positions:
  "dom (assign_positions es i pl c m) = dom m \<union> set es"
  by (induction es arbitrary: i m) auto

lemma assign_positions_nth:
  assumes "distinct es" "j < length es"
  shows "assign_positions es i pl c m (es ! j)
           = Some (if i + j < length pl then snd (pl ! (i + j)) else c)"
  using assms
proof (induction es arbitrary: i j m)
  case Nil
  then show ?case by simp
next
  case (Cons e es)
  show ?case
  proof (cases j)
    case 0
    then show ?thesis using Cons.prems by (simp add: assign_positions_notin)
  next
    case (Suc k)
    then show ?thesis using Cons.prems Cons.IH [of k "Suc i"] by simp
  qed
qed

lemma example_lattice_filter:
  "filter (\<lambda>rc. (fst (hex_point (3 / 4) (3 / 4 * (866 / 1000)) rc))\<^sup>2
                + (snd (hex_point (3 / 4) (3 / 4 * (866 / 1000)) rc))\<^sup>2 + 0\<^sup>2 \<le> (3 / 4)\<^sup>2)
     (lattice 3 3)
     = [(- 1, - 1), (- 1, 0), (0, - 1), (0, 0), (0, 1), (1, - 1), (1, 0)]"
  by code_simp

lemma fst_candidate_le:
  "0 \<le> r \<Longrightarrow> fst (candidate center xy) \<le> r \<longleftrightarrow> (fst xy)\<^sup>2 + (snd xy)\<^sup>2 + 0\<^sup>2 \<le> r\<^sup>2"
  by (simp add: candidate_def place_def vnorm_le_iff)

lemma example_candidates:
  "hexagonal_candidates (0, 0, 0) (3 / 4) (2 / 5) (7 / 20) =
     Inr [(0, (0, 0, 0)),
          (sqrt (56247525 / 100000000), (- 3 / 8, - 1299 / 2000, 0)),
          (sqrt (56247525 / 100000000), (3 / 8, - 1299 / 2000, 0)),
          (sqrt (56247525 / 100000000), (- 3 / 8, 1299 / 2000, 0)),
          (sqrt (56247525 / 100000000), (3 / 8, 1299 / 2000, 0)),
          (3 / 4, (- 3 / 4, 0, 0)),
          (3 / 4, (3 / 4, 0, 0))]"
proof -
  have s: "(2 / 5 + 7 / 20 :: real) = 3 / 4" by simp
  have f: "filter (\<lambda>rc. fst (candidate (0, 0, 0) (hex_point (3 / 4) (3 / 4 * (866 / 1000)) rc)) \<le> 3 / 4)
             (lattice 3 3)
           = [(- 1, - 1), (- 1, 0), (0, - 1), (0, 0), (0, 1), (1, - 1), (1, 0)]"
  proof -
    have e: "\<And>xy. fst (candidate (0, 0, 0) xy) \<le> 3 / 4
                 \<longleftrightarrow> (fst xy)\<^sup>2 + (snd xy)\<^sup>2 + 0\<^sup>2 \<le> (3 / 4)\<^sup>2"
      by (rule fst_candidate_le) simp
    show ?thesis unfolding e by (rule example_lattice_filter)
  qed
  have "hexagonal_candidates (0, 0, 0) (3 / 4) (2 / 5) (7 / 20)
        = Inr (sort_key fst (circle_candidates (0, 0, 0) (3 / 4) (3 / 4) (3 / 4 * (866 / 1000)) 3 3))"
    unfolding hexagonal_candidates_def Let_def s
    by (simp add: bind_res_def py_div_def py_int_def)
  also have "circle_candidates (0, 0, 0) (3 / 4) (3 / 4) (3 / 4 * (866 / 1000)) 3 3
        = map (candidate (0, 0, 0) \<circ> hex_point (3 / 4) (3 / 4 * (866 / 1000)))
            [(- 1, - 1), (- 1, 0), (0, - 1), (0, 0), (0, 1), (1, - 1), (1, 0)]"
    unfolding circle_candidates_repr f ..
  also have "\<dots> = [(sqrt (56247525 / 100000000), (- 3 / 8, - 1299 / 2000, 0)),
                   (sqrt (56247525 / 100000000), (3 / 8, - 1299 / 2000, 0)),
                   (3 / 4, (- 3 / 4, 0, 0)),
                   (0, (0, 0, 0)),
                   (3 / 4, (3 / 4, 0, 0)),
                   (sqrt (56247525 / 100000000), (- 3 / 8, 1299 / 2000, 0)),
                   (sqrt (56247525 / 100000000), (3 / 8, 1299 / 2000, 0))]"
  proof -
    have "sqrt (9 / 16) = sqrt ((3 / 4)\<^sup>2)" by (simp add: power2_eq_square)
    then have q: "sqrt (9 / 16) = 3 / 4" by simp
    show ?thesis
      by (simp add: candidate_def place_def hex_point_def vadd_def vsub_def vnorm_def Let_def
          power2_eq_square q)
  qed
  also have "sort_key fst \<dots> = [(0, (0, 0, 0)),
          (sqrt (56247525 / 100000000), (- 3 / 8, - 1299 / 2000, 0)),
          (sqrt (56247525 / 100000000), (3 / 8, - 1299 / 2000, 0)),
          (sqrt (56247525 / 100000000), (- 3 / 8, 1299 / 2000, 0)),
          (sqrt (56247525 / 100000000), (3 / 8, 1299 / 2000, 0)),
          (3 / 4, (- 3 / 4, 0, 0)),
          (3 / 4, (3 / 4, 0, 0))]"
  proof -
    have "sqrt (56247525 / 100000000) \<le> sqrt ((3 / 4)\<^sup>2)"
      unfolding real_sqrt_le_iff by (simp add: power2_eq_square)
    then have a: "sqrt (56247525 / 100000000) \<le> 3 / 4" by simp
    have "sqrt ((3 / 4)\<^sup>2) > sqrt (56247525 / 100000000)"
      unfolding real_sqrt_less_iff by (simp add: power2_eq_square)
    then have b: "\<not> 3 / 4 \<le> sqrt (56247525 / 100000000)" by simp
    have c: "0 \<le> sqrt (56247525 / 100000000)" "\<not> sqrt (56247525 / 100000000) \<le> 0" by simp_all
    show ?thesis using a b c by simp
  qed
  finally show ?thesis .
qed

lemma hexagonal_candidates_eq:
  assumes "e + p \<noteq> 0"
  shows "hexagonal_candidates center r e p =
     Inr (sorted_candidates center (e + p)
            (\<lambda>rc. fst (candidate center (hex_point (e + p) ((e + p) * (866 / 1000)) rc)) \<le> r)
            (py_int (2 * r / ((e + p) * (866 / 1000))) + 1) (py_int (2 * r / (e + p)) + 1))"
  using assms
  by (simp add: hexagonal_candidates_def Let_def bind_res_def py_div_def sorted_candidates_def
      circle_candidates_repr)

lemma elliptical_candidates_eq:
  assumes "e + p \<noteq> 0"
  shows "elliptical_candidates center w h e p =
     Inr (sorted_candidates center (e + p)
            (\<lambda>rc. in_ellipse w h (hex_point (e + p) ((e + p) * (866 / 1000)) rc))
            (py_int (h / ((e + p) * (866 / 1000))) + 2) (py_int (w / (e + p)) + 2))"
  using assms
  by (simp add: elliptical_candidates_def Let_def bind_res_def py_div_def sorted_candidates_def
      ellipse_candidates_repr)

lemma assign_well_packed:
  assumes s: "0 < s" and d: "distinct es"
    and len: "length es \<le> length (sorted_candidates center s P rows cols)"
    and ins: "\<And>rc. P rc \<Longrightarrow> inside (snd (candidate center (hex_point s (s * (866 / 1000)) rc)))"
  shows "well_packed es (assign_positions es 0 (sorted_candidates center s P rows cols) center
           Map.empty) inside ((99997 / 100000) * s)"
proof -
  let ?cs = "sorted_candidates center s P rows cols"
  let ?m = "assign_positions es 0 ?cs center Map.empty"
  have at: "?m (es ! j) = Some (snd (?cs ! j))" if "j < length es" for j
    using assign_positions_nth [OF d that, of 0 ?cs center Map.empty] that len by simp
  have one: "\<exists>p. ?m e = Some p \<and> inside p" if "e \<in> set es" for e
  proof -
    from that obtain j where j: "j < length es" "e = es ! j"
      unfolding in_set_conv_nth by blast
    then have "j < length ?cs" using len by simp
    then obtain rc where "P rc" "?cs ! j = candidate center (hex_point s (s * (866 / 1000)) rc)"
      using sorted_candidates_nth by blast
    then have "inside (snd (?cs ! j))" using ins by simp
    then show ?thesis using at [OF j(1)] j(2) by simp
  qed
  have two: "\<exists>p1 p2. ?m e1 = Some p1 \<and> ?m e2 = Some p2 \<and> p1 \<noteq> p2
               \<and> (99997 / 100000) * s \<le> vnorm (vsub p1 p2)"
    if "e1 \<in> set es" "e2 \<in> set es" "e1 \<noteq> e2" for e1 e2
  proof -
    from that(1) obtain j1 where j1: "j1 < length es" "e1 = es ! j1"
      unfolding in_set_conv_nth by blast
    from that(2) obtain j2 where j2: "j2 < length es" "e2 = es ! j2"
      unfolding in_set_conv_nth by blast
    have ne: "j1 \<noteq> j2" using that(3) j1 j2 by auto
    have "snd (?cs ! j1) \<noteq> snd (?cs ! j2)
          \<and> (99997 / 100000) * s \<le> vnorm (vsub (snd (?cs ! j1)) (snd (?cs ! j2)))"
      using s j1(1) j2(1) len ne by (intro sorted_candidates_separated) simp_all
    then show ?thesis
      using at [OF j1(1)] at [OF j2(1)] j1(2) j2(2) by simp
  qed
  show ?thesis
    unfolding well_packed_def using one two by blast
qed

lemma inside_ellipse_candidate:
  assumes "0 < w" "0 < h" "in_ellipse w h xy"
  shows "inside_ellipse center w h (snd (candidate center xy))"
  using assms by (simp add: inside_ellipse_def candidate_def place_def in_ellipse_def)

text \<open>
  Claim C6, amended. With a positive spacing and distinct elements, both packings raise
  nothing; when the elements are at most as many as the lattice candidates inside the
  boundary, every element gets a position inside or on the boundary (the circle of the
  given radius, or the ellipse of the given positive width and height), different
  elements get different positions, and two positions are at least
  \<open>0.99997 * (elem_size + padding)\<close> apart.
\<close>

theorem packing_complete:
  assumes "0 < elem_size + padding" "distinct elements"
  shows "(\<exists>cs m. hexagonal_candidates center r elem_size padding = Inr cs
            \<and> hexagonal_pack elements center r elem_size padding = Inr m
            \<and> (length elements \<le> length cs \<longrightarrow>
                 well_packed elements m (\<lambda>p. vnorm (vsub p center) \<le> r)
                   ((99997 / 100000) * (elem_size + padding))))
       \<and> (0 < width \<and> 0 < height \<longrightarrow>
           (\<exists>cs m. elliptical_candidates center width height elem_size padding = Inr cs
              \<and> elliptical_pack elements center width height elem_size padding = Inr m
              \<and> (length elements \<le> length cs \<longrightarrow>
                   well_packed elements m (inside_ellipse center width height)
                     ((99997 / 100000) * (elem_size + padding)))))"
proof -
  let ?s = "elem_size + padding"
  let ?hp = "hex_point ?s (?s * (866 / 1000))"
  have ne: "?s \<noteq> 0" using assms(1) by simp
  have circle: "\<exists>cs m. hexagonal_candidates center r elem_size padding = Inr cs
            \<and> hexagonal_pack elements center r elem_size padding = Inr m
            \<and> (length elements \<le> length cs \<longrightarrow>
                 well_packed elements m (\<lambda>p. vnorm (vsub p center) \<le> r)
                   ((99997 / 100000) * ?s))"
  proof -
    define cs where "cs = sorted_candidates center ?s
            (\<lambda>rc. fst (candidate center (?hp rc)) \<le> r)
            (py_int (2 * r / (?s * (866 / 1000))) + 1) (py_int (2 * r / ?s) + 1)"
    have c: "hexagonal_candidates center r elem_size padding = Inr cs"
      unfolding cs_def by (rule hexagonal_candidates_eq [OF ne])
    have p: "hexagonal_pack elements center r elem_size padding
               = Inr (assign_positions elements 0 cs center Map.empty)"
      by (simp add: hexagonal_pack_def c bind_res_def)
    have w: "well_packed elements (assign_positions elements 0 cs center Map.empty)
               (\<lambda>p. vnorm (vsub p center) \<le> r) ((99997 / 100000) * ?s)"
      if "length elements \<le> length cs"
      using that unfolding cs_def
      by (intro assign_well_packed assms) (simp_all add: candidate_def)
    show ?thesis using c p w by blast
  qed
  have ellipse: "\<exists>cs m. elliptical_candidates center width height elem_size padding = Inr cs
              \<and> elliptical_pack elements center width height elem_size padding = Inr m
              \<and> (length elements \<le> length cs \<longrightarrow>
                   well_packed elements m (inside_ellipse center width height)
                     ((99997 / 100000) * ?s))"
    if wh: "0 < width \<and> 0 < height"
  proof -
    define cs where "cs = sorted_candidates center ?s
            (\<lambda>rc. in_ellipse width height (?hp rc))
            (py_int (height / (?s * (866 / 1000))) + 2) (py_int (width / ?s) + 2)"
    have c: "elliptical_candidates center width height elem_size padding = Inr cs"
      unfolding cs_def by (rule elliptical_candidates_eq [OF ne])
    have p: "elliptical_pack elements center width height elem_size padding
               = Inr (assign_positions elements 0 cs center Map.empty)"
      by (simp add: elliptical_pack_def c bind_res_def)
    have w: "well_packed elements (assign_positions elements 0 cs center Map.empty)
               (inside_ellipse center width height) ((99997 / 100000) * ?s)"
      if "length elements \<le> length cs"
      using that wh unfolding cs_def
      by (intro assign_well_packed assms inside_ellipse_candidate) simp_all
    show ?thesis using c p w by blast
  qed
  show ?thesis using circle ellipse by blast
qed

text \<open>
  Claim C6, as stated, fails on the separation. The vertical lattice step is
  \<open>0.866 * spacing\<close>, a little less than \<open>\<surd>3 / 2 * spacing\<close>, so neighbours in adjacent
  rows are \<open>\<surd>0.999956 * spacing\<close> apart. With the element size 0.4 and the padding 0.35
  of the comfortable tier, in a circle of radius 0.75 with 7 candidates, two elements
  are placed 0.74998 apart: closer than the spacing 0.75 less \<open>10\<^sup>-\<^sup>5\<close>.
\<close>

theorem packing_separation_counterexample:
  "map_sum id length (hexagonal_candidates (0, 0, 0) (3 / 4) (2 / 5) (7 / 20)) = Inr 7
   \<and> hexagonal_pack [1 :: int, 2] (0, 0, 0) (3 / 4) (2 / 5) (7 / 20)
       = Inr [1 \<mapsto> (0, 0, 0), 2 \<mapsto> (- 3 / 8, - 1299 / 2000, 0)]
   \<and> vnorm (vsub (0, 0, 0) (- 3 / 8, - 1299 / 2000, 0)) < (2 / 5 + 7 / 20) - 1 / 100000"
proof -
  have "sqrt (56247525 / 100000000) < sqrt ((74999 / 100000)\<^sup>2)"
    unfolding real_sqrt_less_iff by (simp add: power2_eq_square)
  then have "sqrt (56247525 / 100000000) < 74999 / 100000" by simp
  then have "vnorm (vsub (0, 0, 0) (- 3 / 8, - 1299 / 2000, 0)) < (2 / 5 + 7 / 20) - 1 / 100000"
    by (simp add: vnorm_def vsub_def power2_eq_square)
  then show ?thesis
    by (simp add: hexagonal_pack_def example_candidates bind_res_def)
qed

lemma example_ellipse_filter:
  "length (filter (\<lambda>rc. in_ellipse 2 2 (hex_point (3 / 4) (3 / 4 * (866 / 1000)) rc)) (lattice 5 4)) = 7"
  by code_simp

lemma example_ellipse_candidates:
  "\<exists>cs. elliptical_candidates (0, 0, 0) 2 2 (2 / 5) (7 / 20) = Inr cs \<and> length cs = 7"
proof -
  have s: "(2 / 5 + 7 / 20 :: real) = 3 / 4" by simp
  have ne: "(2 / 5 + 7 / 20 :: real) \<noteq> 0" by simp
  have r: "py_int (2 / (3 / 4 * (866 / 1000))) + 2 = 5" "py_int (2 / (3 / 4)) + 2 = 4"
    by (simp_all add: py_int_def)
  have "elliptical_candidates (0, 0, 0) 2 2 (2 / 5) (7 / 20)
          = Inr (sorted_candidates (0, 0, 0) (3 / 4)
                   (\<lambda>rc. in_ellipse 2 2 (hex_point (3 / 4) (3 / 4 * (866 / 1000)) rc)) 5 4)"
    using elliptical_candidates_eq [OF ne, of "(0, 0, 0)" 2 2] unfolding s r .
  moreover have "length (sorted_candidates (0, 0, 0) (3 / 4)
                   (\<lambda>rc. in_ellipse 2 2 (hex_point (3 / 4) (3 / 4 * (866 / 1000)) rc)) 5 4) = 7"
    unfolding sorted_candidates_def length_sort length_map by (rule example_ellipse_filter)
  ultimately show ?thesis by blast
qed

theorem packing_complete_witness:
  "(\<exists>cs m. hexagonal_candidates (0, 0, 0) (3 / 4) (2 / 5) (7 / 20) = Inr cs
      \<and> hexagonal_pack [1 :: int, 2] (0, 0, 0) (3 / 4) (2 / 5) (7 / 20) = Inr m
      \<and> length [1 :: int, 2] \<le> length cs
      \<and> well_packed [1 :: int, 2] m (\<lambda>p. vnorm (vsub p (0, 0, 0)) \<le> 3 / 4)
           ((99997 / 100000) * (2 / 5 + 7 / 20)))
   \<and> (\<exists>cs m. elliptical_candidates (0, 0, 0) 2 2 (2 / 5) (7 / 20) = Inr cs
      \<and> elliptical_pack [1 :: int, 2] (0, 0, 0) 2 2 (2 / 5) (7 / 20) = Inr m
      \<and> length [1 :: int, 2] \<le> length cs
      \<and> well_packed [1 :: int, 2] m (inside_ellipse (0, 0, 0) 2 2)
           ((99997 / 100000) * (2 / 5 + 7 / 20)))"
proof -
  have h: "(0 :: real) < 2 / 5 + 7 / 20" "distinct [1 :: int, 2]" by simp_all
  have wh: "(0 :: real) < 2 \<and> (0 :: real) < 2" by simp
  note t = packing_complete [OF h, of "(0, 0, 0)" "3 / 4" 2 2]
  from t obtain cs m where c: "hexagonal_candidates (0, 0, 0) (3 / 4) (2 / 5) (7 / 20) = Inr cs"
      "hexagonal_pack [1 :: int, 2] (0, 0, 0) (3 / 4) (2 / 5) (7 / 20) = Inr m"
      "length [1 :: int, 2] \<le> length cs \<longrightarrow>
         well_packed [1 :: int, 2] m (\<lambda>p. vnorm (vsub p (0, 0, 0)) \<le> 3 / 4)
           ((99997 / 100000) * (2 / 5 + 7 / 20))"
    by blast
  have lc: "length [1 :: int, 2] \<le> length cs"
    using c(1) unfolding example_candidates by auto
  from t wh obtain cs' m' where e: "elliptical_candidates (0, 0, 0) 2 2 (2 / 5) (7 / 20) = Inr cs'"
      "elliptical_pack [1 :: int, 2] (0, 0, 0) 2 2 (2 / 5) (7 / 20) = Inr m'"
      "length [1 :: int, 2] \<le> length cs' \<longrightarrow>
         well_packed [1 :: int, 2] m' (inside_ellipse (0, 0, 0) 2 2)
           ((99997 / 100000) * (2 / 5 + 7 / 20))"
    by blast
  have le: "length [1 :: int, 2] \<le> length cs'"
    using e(1) example_ellipse_candidates by auto
  show ?thesis using c lc e le by blast
qed

subsection \<open>Region sizer and layout\<close>

lemma select_tier_positive:
  "0 < tp_radius (snd (select_tier n))" "0 < tp_font (snd (select_tier n))"
  "0 < tp_padding (snd (select_tier n))"
  by (simp_all add: select_tier_cases)

lemma solve_default_range:
  assumes "0 < R"
  shows "\<exists>d. solve_lens_separation R A default_tolerance default_max_iterations = Inr d
            \<and> 0 \<le> d \<and> d \<le> 2 * R"
proof (cases "A > pi * R\<^sup>2 * (95 / 100)")
  case True
  then show ?thesis using assms by (simp add: solve_lens_separation_def)
next
  case False
  have "\<exists>d. bisect R A default_tolerance (Suc 99) 0 (2 * R) None = Inr d \<and> 0 \<le> d \<and> d \<le> 2 * R"
    using assms by (intro bisect_range) simp_all
  moreover have "nat default_max_iterations = Suc 99"
    by (simp add: default_max_iterations_def)
  ultimately show ?thesis using False by (simp add: solve_lens_separation_def)
qed

lemma lens_dimensions_total:
  assumes "0 \<le> d" "d \<le> 2 * R"
  shows "\<exists>w h. calculate_lens_dimensions R d = Inr (w, h)"
proof (cases "d \<ge> 2 * R")
  case True
  then show ?thesis by (simp add: calculate_lens_dimensions_def)
next
  case False
  then have "(d / 2)\<^sup>2 \<le> R\<^sup>2" using assms by (intro power_mono) simp_all
  then show ?thesis
    using False by (simp add: calculate_lens_dimensions_def bind_res_def py_sqrt_def Let_def)
qed

lemma lens_parameters_total:
  assumes "0 < R"
  shows "\<exists>d a w h. calculate_lens_parameters n R f p =
           Inr \<lparr>lp_font_size = f, lp_element_size = real_of_int f / FONT_TO_MANIM_CONVERSION,
                lp_padding = p, lp_circle_separation = d, lp_area = a, lp_width = w,
                lp_height = h\<rparr>"
proof -
  let ?A = "(if n > 0
             then (real_of_int n * (real_of_int f / FONT_TO_MANIM_CONVERSION + p)\<^sup>2)
                    / PACKING_EFFICIENCY * SAFETY_MARGIN
             else 1 / 10)"
  obtain d where d: "solve_lens_separation R ?A default_tolerance default_max_iterations = Inr d"
    "0 \<le> d" "d \<le> 2 * R"
    using solve_default_range [OF assms] by blast
  obtain w h where wh: "calculate_lens_dimensions R d = Inr (w, h)"
    using lens_dimensions_total [OF d(2,3)] by blast
  show ?thesis
    unfolding calculate_lens_parameters_def Let_def d(1) bind_res_def
    by (simp add: wh)
qed


lemma calc_radius_eq:
  assumes "0 \<le> fp" "0 \<le> n"
  shows "calc_radius fp n =
           Inr (if n = 0 then 1 / 10 else sqrt (real_of_int n * fp / PACKING_EFFICIENCY / pi))"
proof (cases "n = 0")
  case True
  then show ?thesis by (simp add: calc_radius_def)
next
  case False
  have "0 \<le> real_of_int n * fp / PACKING_EFFICIENCY / pi"
    using assms by (simp add: PACKING_EFFICIENCY_def)
  then show ?thesis
    using False by (simp add: calc_radius_def Let_def py_sqrt_def)
qed

lemma calc_radius_total:
  assumes "0 \<le> fp" "0 \<le> n"
  shows "\<exists>r. calc_radius fp n = Inr r \<and> 0 \<le> r"
  unfolding calc_radius_eq [OF assms] using assms by (auto simp: PACKING_EFFICIENCY_def)

lemma py_int_nonneg: "0 \<le> x \<Longrightarrow> 0 \<le> py_int x"
  by (simp add: py_int_def)

lemma crescent_parameters_total:
  assumes "0 < R" "0 < f" "0 < p" "0 \<le> a" "0 \<le> b"
  shows "\<exists>cf ce cp r_a r_b. calculate_crescent_parameters a b R f p =
           Inr \<lparr>cp_font_size = cf, cp_element_size = ce, cp_padding = cp,
                cp_radii = [''a_only'' \<mapsto> r_a, ''b_only'' \<mapsto> r_b]\<rparr>
           \<and> 0 < ce + cp"
proof -
  let ?es = "real_of_int f / FONT_TO_MANIM_CONVERSION"
  let ?fp = "(?es + p)\<^sup>2"
  have es: "0 < ?es" using assms(2) by (simp add: FONT_TO_MANIM_CONVERSION_def)
  obtain r_a where ra: "calc_radius ?fp a = Inr r_a" "0 \<le> r_a"
    using calc_radius_total [of ?fp a] assms(4) by auto
  obtain r_b where rb: "calc_radius ?fp b = Inr r_b" "0 \<le> r_b"
    using calc_radius_total [of ?fp b] assms(5) by auto
  show ?thesis
  proof (cases "max r_a r_b > R * (65 / 100)")
    case False
    then have "calculate_crescent_parameters a b R f p =
           Inr \<lparr>cp_font_size = f, cp_element_size = ?es, cp_padding = p,
                cp_radii = [''a_only'' \<mapsto> r_a, ''b_only'' \<mapsto> r_b]\<rparr>"
      by (simp add: calculate_crescent_parameters_def Let_def ra rb bind_res_def)
    moreover have "0 < ?es + p" using es assms(3) by simp
    ultimately show ?thesis by blast
  next
    case True
    let ?q = "R * (65 / 100) / max r_a r_b"
    let ?sf = "?q * (9 / 10)"
    let ?cfont = "py_int (real_of_int f * ?sf)"
    let ?cpad = "p * ?sf"
    let ?ces = "real_of_int ?cfont / FONT_TO_MANIM_CONVERSION"
    have "0 < R * (65 / 100)" using assms(1) by simp
    then have m: "0 < max r_a r_b" using True by linarith
    then have q: "0 < ?q" using assms(1) by simp
    then have sf: "0 < ?sf" by simp
    have "0 \<le> real_of_int f * ?sf"
      using assms(2) sf by (intro mult_nonneg_nonneg less_imp_le) simp_all
    then have "0 \<le> ?cfont" by (rule py_int_nonneg)
    then have ces: "0 \<le> ?ces" by (simp add: FONT_TO_MANIM_CONVERSION_def)
    have cpad: "0 < ?cpad" using assms(3) sf by (intro mult_pos_pos) simp_all
    obtain r_a' where ra': "calc_radius ((?ces + ?cpad)\<^sup>2) a = Inr r_a'"
      using calc_radius_total [of "(?ces + ?cpad)\<^sup>2" a] assms(4) by auto
    obtain r_b' where rb': "calc_radius ((?ces + ?cpad)\<^sup>2) b = Inr r_b'"
      using calc_radius_total [of "(?ces + ?cpad)\<^sup>2" b] assms(5) by auto
    have d: "py_div (R * (65 / 100)) (max r_a r_b) = Inr ?q"
      using m by (simp add: py_div_def)
    have "calculate_crescent_parameters a b R f p =
           Inr \<lparr>cp_font_size = ?cfont, cp_element_size = ?ces, cp_padding = ?cpad,
                cp_radii = [''a_only'' \<mapsto> r_a', ''b_only'' \<mapsto> r_b']\<rparr>"
      unfolding calculate_crescent_parameters_def Let_def ra rb bind_res_def sum.case
        if_P [OF True] d ra' rb' ..
    moreover have "0 < ?ces + ?cpad" using ces cpad by linarith
    ultimately show ?thesis by blast
  qed
qed

lemma calculate_layout_fields:
  fixes A B :: "'a set"
  defines "tp \<equiv> snd (select_tier (int (card (A \<union> B))))"
  shows "\<exists>L lp cp.
           calculate_layout A B = Inr L
         \<and> calculate_lens_parameters (int (card (A \<inter> B))) (tp_radius tp) (tp_font tp)
             (tp_padding tp) = Inr lp
         \<and> calculate_crescent_parameters (int (card (A - B))) (int (card (B - A)))
             (tp_radius tp) (tp_font tp) (tp_padding tp) = Inr cp
         \<and> lens_view L = (lp_font_size lp, lp_element_size lp, lp_padding lp, lp_area lp,
                           lp_width lp, lp_height lp)
         \<and> crescent_view L = (cp_font_size cp, cp_element_size cp, cp_padding cp, cp_radii cp)
         \<and> lens_font_size L = tp_font tp
         \<and> 0 < lens_element_size L + lens_padding L
         \<and> 0 < crescent_element_size L + crescent_padding L
         \<and> (\<exists>r. crescent_radii L ''a_only'' = Some r)
         \<and> (\<exists>r. crescent_radii L ''b_only'' = Some r)"
proof -
  have pos: "0 < tp_radius tp" "0 < tp_font tp" "0 < tp_padding tp"
    unfolding tp_def by (rule select_tier_positive)+
  obtain d a w h where lp: "calculate_lens_parameters (int (card (A \<inter> B))) (tp_radius tp)
        (tp_font tp) (tp_padding tp) =
           Inr \<lparr>lp_font_size = tp_font tp,
                lp_element_size = real_of_int (tp_font tp) / FONT_TO_MANIM_CONVERSION,
                lp_padding = tp_padding tp, lp_circle_separation = d, lp_area = a, lp_width = w,
                lp_height = h\<rparr>"
    using lens_parameters_total [OF pos(1)] by blast
  obtain cf ce cp r_a r_b where cp: "calculate_crescent_parameters (int (card (A - B)))
        (int (card (B - A))) (tp_radius tp) (tp_font tp) (tp_padding tp) =
           Inr \<lparr>cp_font_size = cf, cp_element_size = ce, cp_padding = cp,
                cp_radii = [''a_only'' \<mapsto> r_a, ''b_only'' \<mapsto> r_b]\<rparr>"
      "0 < ce + cp"
    using crescent_parameters_total [OF pos, of "int (card (A - B))" "int (card (B - A))"]
    by auto
  have "0 < real_of_int (tp_font tp) / FONT_TO_MANIM_CONVERSION + tp_padding tp"
    using pos by (simp add: FONT_TO_MANIM_CONVERSION_def add_pos_pos)
  then show ?thesis
    using cp(2)
    by (simp add: calculate_layout_def Let_def split_beta bind_res_def lp cp(1)
        tp_def [symmetric] lens_view_def crescent_view_def)
qed

text \<open>
  Claim C1, amended. Among inputs whose union sizes select the same tier, the lens
  parameters of the layout depend on the intersection size only, and the crescent
  parameters on the a-only and b-only sizes only; the lens font size is always the
  tier's font size, whatever the crescents' font shrink does.
\<close>

theorem lens_crescent_independence:
  fixes A B :: "'a set" and A' B' :: "'b set"
  assumes "select_tier (int (card (A \<union> B))) = select_tier (int (card (A' \<union> B')))"
  shows "(card (A \<inter> B) = card (A' \<inter> B') \<longrightarrow>
            map_sum id lens_view (calculate_layout A B)
              = map_sum id lens_view (calculate_layout A' B'))
       \<and> (card (A - B) = card (A' - B') \<and> card (B - A) = card (B' - A') \<longrightarrow>
            map_sum id crescent_view (calculate_layout A B)
              = map_sum id crescent_view (calculate_layout A' B'))
       \<and> map_sum id lens_font_size (calculate_layout A B)
            = Inr (tp_font (snd (select_tier (int (card (A \<union> B))))))"
proof -
  obtain L lp cp where L: "calculate_layout A B = Inr L"
    "calculate_lens_parameters (int (card (A \<inter> B)))
       (tp_radius (snd (select_tier (int (card (A \<union> B))))))
       (tp_font (snd (select_tier (int (card (A \<union> B))))))
       (tp_padding (snd (select_tier (int (card (A \<union> B)))))) = Inr lp"
    "calculate_crescent_parameters (int (card (A - B))) (int (card (B - A)))
       (tp_radius (snd (select_tier (int (card (A \<union> B))))))
       (tp_font (snd (select_tier (int (card (A \<union> B))))))
       (tp_padding (snd (select_tier (int (card (A \<union> B)))))) = Inr cp"
    "lens_view L = (lp_font_size lp, lp_element_size lp, lp_padding lp, lp_area lp,
                    lp_width lp, lp_height lp)"
    "crescent_view L = (cp_font_size cp, cp_element_size cp, cp_padding cp, cp_radii cp)"
    "lens_font_size L = tp_font (snd (select_tier (int (card (A \<union> B)))))"
    using calculate_layout_fields [of A B] by blast
  obtain L' lp' cp' where L': "calculate_layout A' B' = Inr L'"
    "calculate_lens_parameters (int (card (A' \<inter> B')))
       (tp_radius (snd (select_tier (int (card (A' \<union> B'))))))
       (tp_font (snd (select_tier (int (card (A' \<union> B'))))))
       (tp_padding (snd (select_tier (int (card (A' \<union> B')))))) = Inr lp'"
    "calculate_crescent_parameters (int (card (A' - B'))) (int (card (B' - A')))
       (tp_radius (snd (select_tier (int (card (A' \<union> B'))))))
       (tp_font (snd (select_tier (int (card (A' \<union> B'))))))
       (tp_padding (snd (select_tier (int (card (A' \<union> B')))))) = Inr cp'"
    "lens_view L' = (lp_font_size lp', lp_element_size lp', lp_padding lp', lp_area lp',
                    lp_width lp', lp_height lp')"
    "crescent_view L' = (cp_font_size cp', cp_element_size cp', cp_padding cp', cp_radii cp')"
    using calculate_layout_fields [of A' B'] by blast
  have lens: "lens_view L = lens_view L'" if "card (A \<inter> B) = card (A' \<inter> B')"
  proof -
    have "lp = lp'" using L(2) L'(2) that assms by simp
    then show ?thesis using L(4) L'(4) by simp
  qed
  have crescent: "crescent_view L = crescent_view L'"
    if "card (A - B) = card (A' - B') \<and> card (B - A) = card (B' - A')"
  proof -
    have "cp = cp'" using L(3) L'(3) that assms by simp
    then show ?thesis using L(5) L'(5) by simp
  qed
  show ?thesis
    using lens crescent L(1,6) L'(1) by simp
qed

lemma card_example:
  "card ({0 :: int} \<union> {0}) = 1" "card ({0..15 :: int} \<union> {0}) = 16"
  "card ({0 :: int} \<inter> {0}) = 1" "card ({0..15 :: int} \<inter> {0}) = 1"
  by (simp_all add: card_insert_if)

text \<open>
  Claim C1, as stated, fails across tiers: the tier is chosen from the union size, which
  the a-only and b-only sizes change. With one common element, growing the a-only part
  from 0 to 15 elements moves the union from 1 to 16, the tier from comfortable to
  moderate, and the lens font size from 38 to 32.
\<close>

theorem independence_counterexample:
  "card ({0 :: int} \<inter> {0}) = card ({0..15 :: int} \<inter> {0})
   \<and> map_sum id lens_font_size (calculate_layout {0 :: int} {0}) = Inr 38
   \<and> map_sum id lens_font_size (calculate_layout {0..15 :: int} {0}) = Inr 32"
proof -
  obtain L where L: "calculate_layout {0 :: int} {0} = Inr L"
    "lens_font_size L = tp_font (snd (select_tier (int (card ({0 :: int} \<union> {0})))))"
    using calculate_layout_fields [of "{0 :: int}" "{0}"] by blast
  obtain L' where L': "calculate_layout {0..15 :: int} {0} = Inr L'"
    "lens_font_size L' = tp_font (snd (select_tier (int (card ({0..15 :: int} \<union> {0})))))"
    using calculate_layout_fields [of "{0..15 :: int}" "{0}"] by blast
  have "lens_font_size L = 38" unfolding L(2) card_example by (simp add: select_tier_cases)
  moreover have "lens_font_size L' = 32" unfolding L'(2) card_example by (simp add: select_tier_cases)
  ultimately show ?thesis using L(1) L'(1) card_example by simp
qed

theorem lens_crescent_independence_witness:
  "map_sum id lens_view (calculate_layout {0 :: int} {0})
     = map_sum id lens_view (calculate_layout {0, 1 :: int} {0})
   \<and> map_sum id crescent_view (calculate_layout {0 :: int} {1})
     = map_sum id crescent_view (calculate_layout {0, 2 :: int} {1, 2})
   \<and> map_sum id lens_font_size (calculate_layout {0 :: int} {0}) = Inr 38"
proof -
  have t1: "select_tier (int (card ({0 :: int} \<union> {0})))
              = select_tier (int (card ({0, 1 :: int} \<union> {0})))"
    by (simp add: select_tier_cases card_insert_if)
  have t2: "select_tier (int (card ({0 :: int} \<union> {1})))
              = select_tier (int (card ({0, 2 :: int} \<union> {1, 2})))"
    by (simp add: select_tier_cases card_insert_if)
  have c1: "card ({0 :: int} \<inter> {0}) = card ({0, 1 :: int} \<inter> {0})" by simp
  have c2: "card ({0 :: int} - {1}) = card ({0, 2 :: int} - {1, 2})
            \<and> card ({1 :: int} - {0}) = card ({1, 2 :: int} - {0, 2})"
    by (simp add: card_insert_if)
  have f: "tp_font (snd (select_tier (int (card ({0 :: int} \<union> {0}))))) = 38"
    by (simp add: select_tier_cases)
  show ?thesis
    using lens_crescent_independence [OF t1] lens_crescent_independence [OF t2] c1 c2 f
    by simp
qed

subsection \<open>Packing the three regions\<close>

lemma sort_enumerates:
  assumes "enumerates to_list s"
  shows "sort (to_list s) = sorted_list_of_set s"
proof -
  have "sorted_list_of_set (set (to_list s)) = sort (remdups (to_list s))"
    by (rule sorted_list_of_set_sort_remdups)
  then show ?thesis using assms by (simp add: enumerates_def distinct_remdups_id)
qed

lemma hexagonal_pack_Inr:
  "hexagonal_pack es c r e p = Inr m \<longleftrightarrow>
     (\<exists>cs. hexagonal_candidates c r e p = Inr cs \<and> m = assign_positions es 0 cs c Map.empty)"
  by (auto simp: hexagonal_pack_def bind_res_def split: sum.splits)

lemma elliptical_pack_Inr:
  "elliptical_pack es c w h e p = Inr m \<longleftrightarrow>
     (\<exists>cs. elliptical_candidates c w h e p = Inr cs \<and> m = assign_positions es 0 cs c Map.empty)"
  by (auto simp: elliptical_pack_def bind_res_def split: sum.splits)

lemma pack_elements_Inr:
  "pack_elements to_list es A B L = Inr m \<longleftrightarrow>
     (\<exists>ma mi mb. m = ma ++ mi ++ mb
        \<and> (if A - B = {} then ma = Map.empty
            else \<exists>r. crescent_radii L ''a_only'' = Some r
                   \<and> hexagonal_pack (sort (to_list (A - B))) (a_region_center L) r
                        (crescent_element_size L) (crescent_padding L) = Inr ma)
        \<and> (if A \<inter> B = {} then mi = Map.empty
            else elliptical_pack (sort (to_list (A \<inter> B))) (lens_center L) (lens_width L)
                   (lens_height L) (lens_element_size L) (lens_padding L) = Inr mi)
        \<and> (if B - A = {} then mb = Map.empty
            else \<exists>r. crescent_radii L ''b_only'' = Some r
                   \<and> hexagonal_pack (sort (to_list (B - A))) (b_region_center L) r
                        (crescent_element_size L) (crescent_padding L) = Inr mb))"
  unfolding pack_elements_def Let_def bind_res_def lookup_def
  by (auto split: sum.splits option.splits)

lemma dom_hexagonal_pack:
  assumes "hexagonal_pack es c r e p = Inr m"
  shows "dom m = set es"
proof -
  from assms obtain cs where "m = assign_positions es 0 cs c Map.empty"
    unfolding hexagonal_pack_Inr by blast
  then show ?thesis by (simp add: dom_assign_positions)
qed

lemma dom_elliptical_pack:
  assumes "elliptical_pack es c w h e p = Inr m"
  shows "dom m = set es"
proof -
  from assms obtain cs where "m = assign_positions es 0 cs c Map.empty"
    unfolding elliptical_pack_Inr by blast
  then show ?thesis by (simp add: dom_assign_positions)
qed

lemma pack_elements_regions:
  fixes A B :: "'a::linorder set"
  assumes m: "pack_elements to_list es A B L = Inr m"
    and en: "enumerates to_list (A - B)" "enumerates to_list (A \<inter> B)" "enumerates to_list (B - A)"
  shows "\<exists>ma mi mb. m = ma ++ mi ++ mb \<and> dom ma = A - B \<and> dom mi = A \<inter> B \<and> dom mb = B - A
     \<and> (\<forall>r ma'. crescent_radii L ''a_only'' = Some r \<longrightarrow> A - B \<noteq> {} \<longrightarrow>
            hexagonal_pack (sorted_list_of_set (A - B)) (a_region_center L) r
              (crescent_element_size L) (crescent_padding L) = Inr ma' \<longrightarrow> ma' = ma)
     \<and> (\<forall>mi'. A \<inter> B \<noteq> {} \<longrightarrow>
            elliptical_pack (sorted_list_of_set (A \<inter> B)) (lens_center L) (lens_width L)
              (lens_height L) (lens_element_size L) (lens_padding L) = Inr mi' \<longrightarrow> mi' = mi)
     \<and> (\<forall>r mb'. crescent_radii L ''b_only'' = Some r \<longrightarrow> B - A \<noteq> {} \<longrightarrow>
            hexagonal_pack (sorted_list_of_set (B - A)) (b_region_center L) r
              (crescent_element_size L) (crescent_padding L) = Inr mb' \<longrightarrow> mb' = mb)"
proof -
  from m obtain ma mi mb where parts: "m = ma ++ mi ++ mb"
    and a: "if A - B = {} then ma = Map.empty
            else \<exists>r. crescent_radii L ''a_only'' = Some r
                   \<and> hexagonal_pack (sort (to_list (A - B))) (a_region_center L) r
                        (crescent_element_size L) (crescent_padding L) = Inr ma"
    and i: "if A \<inter> B = {} then mi = Map.empty
            else elliptical_pack (sort (to_list (A \<inter> B))) (lens_center L) (lens_width L)
                   (lens_height L) (lens_element_size L) (lens_padding L) = Inr mi"
    and b: "if B - A = {} then mb = Map.empty
            else \<exists>r. crescent_radii L ''b_only'' = Some r
                   \<and> hexagonal_pack (sort (to_list (B - A))) (b_region_center L) r
                        (crescent_element_size L) (crescent_padding L) = Inr mb"
    unfolding pack_elements_Inr by blast
  have s: "sort (to_list (A - B)) = sorted_list_of_set (A - B)"
    "sort (to_list (A \<inter> B)) = sorted_list_of_set (A \<inter> B)"
    "sort (to_list (B - A)) = sorted_list_of_set (B - A)"
    using en by (simp_all add: sort_enumerates)
  have fin: "finite (A - B)" "finite (A \<inter> B)" "finite (B - A)"
    using en unfolding enumerates_def by (metis List.finite_set)+
  have da: "dom ma = A - B"
  proof (cases "A - B = {}")
    case True
    then show ?thesis using a by simp
  next
    case False
    then obtain r where "hexagonal_pack (sorted_list_of_set (A - B)) (a_region_center L) r
                        (crescent_element_size L) (crescent_padding L) = Inr ma"
      using a unfolding s by auto
    then have "dom ma = set (sorted_list_of_set (A - B))" by (rule dom_hexagonal_pack)
    then show ?thesis using fin(1) by simp
  qed
  have di: "dom mi = A \<inter> B"
  proof (cases "A \<inter> B = {}")
    case True
    then show ?thesis using i by simp
  next
    case False
    then have "elliptical_pack (sorted_list_of_set (A \<inter> B)) (lens_center L) (lens_width L)
                   (lens_height L) (lens_element_size L) (lens_padding L) = Inr mi"
      using i unfolding s by auto
    then have "dom mi = set (sorted_list_of_set (A \<inter> B))" by (rule dom_elliptical_pack)
    then show ?thesis using fin(2) by simp
  qed
  have db: "dom mb = B - A"
  proof (cases "B - A = {}")
    case True
    then show ?thesis using b by simp
  next
    case False
    then obtain r where "hexagonal_pack (sorted_list_of_set (B - A)) (b_region_center L) r
                        (crescent_element_size L) (crescent_padding L) = Inr mb"
      using b unfolding s by auto
    then have "dom mb = set (sorted_list_of_set (B - A))" by (rule dom_hexagonal_pack)
    then show ?thesis using fin(3) by simp
  qed
  have ua: "ma' = ma" if "crescent_radii L ''a_only'' = Some r" "A - B \<noteq> {}"
    "hexagonal_pack (sorted_list_of_set (A - B)) (a_region_center L) r
       (crescent_element_size L) (crescent_padding L) = Inr ma'" for r ma'
    using a that by (auto simp: s)
  have ui: "mi' = mi" if "A \<inter> B \<noteq> {}"
    "elliptical_pack (sorted_list_of_set (A \<inter> B)) (lens_center L) (lens_width L)
       (lens_height L) (lens_element_size L) (lens_padding L) = Inr mi'" for mi'
    using i that by (auto simp: s)
  have ub: "mb' = mb" if "crescent_radii L ''b_only'' = Some r" "B - A \<noteq> {}"
    "hexagonal_pack (sorted_list_of_set (B - A)) (b_region_center L) r
       (crescent_element_size L) (crescent_padding L) = Inr mb'" for r mb'
    using b that by (auto simp: s)
  show ?thesis
    using parts da di db ua ui ub by blast
qed

lemma map_add3_regions:
  assumes "dom ma = A - B" "dom mi = A \<inter> B" "dom mb = B - A"
  shows "dom (ma ++ mi ++ mb) = A \<union> B"
    "x \<in> A - B \<Longrightarrow> (ma ++ mi ++ mb) x = ma x"
    "x \<in> A \<inter> B \<Longrightarrow> (ma ++ mi ++ mb) x = mi x"
    "x \<in> B - A \<Longrightarrow> (ma ++ mi ++ mb) x = mb x"
proof -
  show "dom (ma ++ mi ++ mb) = A \<union> B" using assms by auto
  show "(ma ++ mi ++ mb) x = ma x" if "x \<in> A - B"
  proof -
    have "x \<notin> dom mi" "x \<notin> dom mb" using that assms by auto
    then show ?thesis by (simp add: map_add_dom_app_simps)
  qed
  show "(ma ++ mi ++ mb) x = mi x" if "x \<in> A \<inter> B"
  proof -
    have "x \<in> dom mi" "x \<notin> dom mb" using that assms by auto
    then show ?thesis by (simp add: map_add_dom_app_simps)
  qed
  show "(ma ++ mi ++ mb) x = mb x" if "x \<in> B - A"
  proof -
    have "x \<in> dom mb" using that assms by auto
    then show ?thesis by (simp add: map_add_dom_app_simps)
  qed
qed

lemma pack_elements_total:
  fixes A B :: "'a::linorder set"
  assumes sp: "crescent_element_size L + crescent_padding L \<noteq> 0"
      "lens_element_size L + lens_padding L \<noteq> 0"
    and keys: "crescent_radii L ''a_only'' = Some ra" "crescent_radii L ''b_only'' = Some rb"
  shows "\<exists>m. pack_elements to_list es A B L = Inr m"
proof -
  obtain csa where csa: "hexagonal_candidates (a_region_center L) ra (crescent_element_size L)
      (crescent_padding L) = Inr csa"
    using hexagonal_candidates_eq [OF sp(1)] by blast
  obtain csb where csb: "hexagonal_candidates (b_region_center L) rb (crescent_element_size L)
      (crescent_padding L) = Inr csb"
    using hexagonal_candidates_eq [OF sp(1)] by blast
  obtain csi where csi: "elliptical_candidates (lens_center L) (lens_width L) (lens_height L)
      (lens_element_size L) (lens_padding L) = Inr csi"
    using elliptical_candidates_eq [OF sp(2)] by blast
  define ma where "ma = (if A - B = {} then Map.empty
    else assign_positions (sort (to_list (A - B))) 0 csa (a_region_center L) Map.empty)"
  define mi where "mi = (if A \<inter> B = {} then Map.empty
    else assign_positions (sort (to_list (A \<inter> B))) 0 csi (lens_center L) Map.empty)"
  define mb where "mb = (if B - A = {} then Map.empty
    else assign_positions (sort (to_list (B - A))) 0 csb (b_region_center L) Map.empty)"
  have "pack_elements to_list es A B L = Inr (ma ++ mi ++ mb)"
    unfolding pack_elements_Inr
    by (intro exI [of _ ma] exI [of _ mi] exI [of _ mb])
       (simp add: ma_def mi_def mb_def keys hexagonal_pack_Inr elliptical_pack_Inr csa csb csi)
  then show ?thesis by blast
qed

lemma overflow_region:
  assumes es: "distinct es"
    and agree: "\<And>x. x \<in> set es \<Longrightarrow> m x = assign_positions es 0 cs c Map.empty x"
  shows "overflow_at_center es cs c m"
  unfolding overflow_at_center_def
proof (intro allI impI)
  fix j assume j: "j < length es" "length cs \<le> j"
  have "m (es ! j) = assign_positions es 0 cs c Map.empty (es ! j)"
    using j(1) by (intro agree) simp
  also have "\<dots> = Some c"
    using assign_positions_nth [OF es j(1), of 0 cs c Map.empty] j(2) by simp
  finally show "m (es ! j) = Some c" .
qed

lemma layout_packs:
  fixes A B :: "'a::linorder set"
  assumes "finite A" "finite B" "lists_sets to_list"
  shows "\<exists>L m. calculate_layout A B = Inr L
     \<and> pack_elements to_list es A B L = Inr m
     \<and> dom m = A \<union> B
     \<and> (\<exists>r cs. crescent_radii L ''a_only'' = Some r
          \<and> hexagonal_candidates (a_region_center L) r (crescent_element_size L)
               (crescent_padding L) = Inr cs
          \<and> overflow_at_center (sorted_list_of_set (A - B)) cs (a_region_center L) m)
     \<and> (\<exists>cs. elliptical_candidates (lens_center L) (lens_width L) (lens_height L)
               (lens_element_size L) (lens_padding L) = Inr cs
          \<and> overflow_at_center (sorted_list_of_set (A \<inter> B)) cs (lens_center L) m)
     \<and> (\<exists>r cs. crescent_radii L ''b_only'' = Some r
          \<and> hexagonal_candidates (b_region_center L) r (crescent_element_size L)
               (crescent_padding L) = Inr cs
          \<and> overflow_at_center (sorted_list_of_set (B - A)) cs (b_region_center L) m)"
proof -
  obtain L ra rb where L: "calculate_layout A B = Inr L"
    and sp: "0 < lens_element_size L + lens_padding L"
      "0 < crescent_element_size L + crescent_padding L"
    and keys: "crescent_radii L ''a_only'' = Some ra" "crescent_radii L ''b_only'' = Some rb"
    using calculate_layout_fields [of A B] by blast
  have ne: "crescent_element_size L + crescent_padding L \<noteq> 0"
    "lens_element_size L + lens_padding L \<noteq> 0"
    using sp by simp_all
  obtain m where m: "pack_elements to_list es A B L = Inr m"
    using pack_elements_total [OF ne keys] by blast
  have en: "enumerates to_list (A - B)" "enumerates to_list (A \<inter> B)"
    "enumerates to_list (B - A)"
    using assms by (simp_all add: lists_sets_def)
  obtain ma mi mb where parts: "m = ma ++ mi ++ mb"
    and d: "dom ma = A - B" "dom mi = A \<inter> B" "dom mb = B - A"
    and ua: "\<And>r ma'. crescent_radii L ''a_only'' = Some r \<Longrightarrow> A - B \<noteq> {} \<Longrightarrow>
            hexagonal_pack (sorted_list_of_set (A - B)) (a_region_center L) r
              (crescent_element_size L) (crescent_padding L) = Inr ma' \<Longrightarrow> ma' = ma"
    and ui: "\<And>mi'. A \<inter> B \<noteq> {} \<Longrightarrow>
            elliptical_pack (sorted_list_of_set (A \<inter> B)) (lens_center L) (lens_width L)
              (lens_height L) (lens_element_size L) (lens_padding L) = Inr mi' \<Longrightarrow> mi' = mi"
    and ub: "\<And>r mb'. crescent_radii L ''b_only'' = Some r \<Longrightarrow> B - A \<noteq> {} \<Longrightarrow>
            hexagonal_pack (sorted_list_of_set (B - A)) (b_region_center L) r
              (crescent_element_size L) (crescent_padding L) = Inr mb' \<Longrightarrow> mb' = mb"
    using pack_elements_regions [OF m en] by blast
  obtain csa where csa: "hexagonal_candidates (a_region_center L) ra (crescent_element_size L)
      (crescent_padding L) = Inr csa"
    using hexagonal_candidates_eq [OF ne(1)] by blast
  obtain csb where csb: "hexagonal_candidates (b_region_center L) rb (crescent_element_size L)
      (crescent_padding L) = Inr csb"
    using hexagonal_candidates_eq [OF ne(1)] by blast
  obtain csi where csi: "elliptical_candidates (lens_center L) (lens_width L) (lens_height L)
      (lens_element_size L) (lens_padding L) = Inr csi"
    using elliptical_candidates_eq [OF ne(2)] by blast
  have fin: "finite (A - B)" "finite (A \<inter> B)" "finite (B - A)" using assms by simp_all
  have oa: "overflow_at_center (sorted_list_of_set (A - B)) csa (a_region_center L) m"
  proof (rule overflow_region)
    show "distinct (sorted_list_of_set (A - B))" by simp
    fix x assume "x \<in> set (sorted_list_of_set (A - B))"
    then have x: "x \<in> A - B" using fin(1) by simp
    then have "A - B \<noteq> {}" by blast
    then have "assign_positions (sorted_list_of_set (A - B)) 0 csa (a_region_center L) Map.empty = ma"
      by (intro ua [OF keys(1)]) (simp_all add: hexagonal_pack_Inr csa)
    then show "m x = assign_positions (sorted_list_of_set (A - B)) 0 csa (a_region_center L)
                       Map.empty x"
      using map_add3_regions(2) [OF d x] parts by simp
  qed
  have oi: "overflow_at_center (sorted_list_of_set (A \<inter> B)) csi (lens_center L) m"
  proof (rule overflow_region)
    show "distinct (sorted_list_of_set (A \<inter> B))" by simp
    fix x assume "x \<in> set (sorted_list_of_set (A \<inter> B))"
    then have x: "x \<in> A \<inter> B" using fin(2) by simp
    then have "A \<inter> B \<noteq> {}" by blast
    then have "assign_positions (sorted_list_of_set (A \<inter> B)) 0 csi (lens_center L) Map.empty = mi"
      by (intro ui) (simp_all add: elliptical_pack_Inr csi)
    then show "m x = assign_positions (sorted_list_of_set (A \<inter> B)) 0 csi (lens_center L)
                       Map.empty x"
      using map_add3_regions(3) [OF d x] parts by simp
  qed
  have ob: "overflow_at_center (sorted_list_of_set (B - A)) csb (b_region_center L) m"
  proof (rule overflow_region)
    show "distinct (sorted_list_of_set (B - A))" by simp
    fix x assume "x \<in> set (sorted_list_of_set (B - A))"
    then have x: "x \<in> B - A" using fin(3) by simp
    then have "B - A \<noteq> {}" by blast
    then have "assign_positions (sorted_list_of_set (B - A)) 0 csb (b_region_center L) Map.empty = mb"
      by (intro ub [OF keys(2)]) (simp_all add: hexagonal_pack_Inr csb)
    then show "m x = assign_positions (sorted_list_of_set (B - A)) 0 csb (b_region_center L)
                       Map.empty x"
      using map_add3_regions(4) [OF d x] parts by simp
  qed
  have "dom m = A \<union> B" using map_add3_regions(1) [OF d] parts by simp
  then show ?thesis
    using L m keys csa csi csb oa oi ob by blast
qed

lemma lists_sets_sorted: "lists_sets (sorted_list_of_set :: 'a::linorder set \<Rightarrow> 'a list)"
  by (simp add: lists_sets_def enumerates_def)

lemma lists_sets_rev_sorted:
  "lists_sets (rev \<circ> (sorted_list_of_set :: 'a::linorder set \<Rightarrow> 'a list))"
  by (simp add: lists_sets_def enumerates_def)

text \<open>
  Claim C7. The packing has no input besides its arguments, so two invocations with the
  same arguments return the same map; the one thing Python leaves open between two
  invocations, the order in which \<^verbatim>\<open>list\<close> enumerates a set, does not reach the
  result, because each region is sorted before it is packed.
\<close>

theorem packing_deterministic:
  fixes A B :: "'a::linorder set"
  assumes "finite A" "finite B" "lists_sets to_list" "lists_sets to_list'"
  shows "pack_elements to_list es A B L = pack_elements to_list' es A B L"
proof -
  have "sort (to_list s) = sort (to_list' s)" if "finite s" for s
    using that assms(3,4) by (simp add: lists_sets_def sort_enumerates)
  then have eqs: "sort (to_list (A - B)) = sort (to_list' (A - B))"
    "sort (to_list (A \<inter> B)) = sort (to_list' (A \<inter> B))"
    "sort (to_list (B - A)) = sort (to_list' (B - A))"
    using assms(1,2) by simp_all
  show ?thesis unfolding pack_elements_def Let_def eqs ..
qed

theorem packing_deterministic_witness:
  "\<forall>es L. pack_elements sorted_list_of_set es {1, 2 :: int} {2, 3} L
            = pack_elements (rev \<circ> sorted_list_of_set) es {1, 2 :: int} {2, 3} L"
proof -
  have f: "finite {1, 2 :: int}" "finite {2, 3 :: int}" by simp_all
  show ?thesis
    using packing_deterministic [OF f lists_sets_sorted lists_sets_rev_sorted] by blast
qed

text \<open>
  Claim C8. For finite sets \<open>A\<close> and \<open>B\<close>, \<open>calculate_layout\<close> raises nothing, and
  \<open>pack_elements\<close> on its layout raises nothing and returns a map whose keys are exactly
  the elements of \<open>A \<union> B\<close>; in each region an element whose index in the sorted region
  is beyond the number of candidates is at the exact center of the region.
\<close>

theorem end_to_end_total:
  fixes A B :: "'a::linorder set"
  assumes "finite A" "finite B" "lists_sets to_list"
  shows "\<exists>L m. calculate_layout A B = Inr L
     \<and> pack_elements to_list es A B L = Inr m
     \<and> dom m = A \<union> B
     \<and> (\<exists>r cs. crescent_radii L ''a_only'' = Some r
          \<and> hexagonal_candidates (a_region_center L) r (crescent_element_size L)
               (crescent_padding L) = Inr cs
          \<and> overflow_at_center (sorted_list_of_set (A - B)) cs (a_region_center L) m)
     \<and> (\<exists>cs. elliptical_candidates (lens_center L) (lens_width L) (lens_height L)
               (lens_element_size L) (lens_padding L) = Inr cs
          \<and> overflow_at_center (sorted_list_of_set (A \<inter> B)) cs (lens_center L) m)
     \<and> (\<exists>r cs. crescent_radii L ''b_only'' = Some r
          \<and> hexagonal_candidates (b_region_center L) r (crescent_element_size L)
               (crescent_padding L) = Inr cs
          \<and> overflow_at_center (sorted_list_of_set (B - A)) cs (b_region_center L) m)"
  using assms by (rule layout_packs)

theorem end_to_end_total_witness:
  "\<exists>L m. calculate_layout {1, 2 :: int} {2, 3} = Inr L
     \<and> pack_elements sorted_list_of_set [1, 2, 3] {1, 2 :: int} {2, 3} L = Inr m
     \<and> dom m = {1, 2} \<union> {2, 3}"
proof -
  have f: "finite {1, 2 :: int}" "finite {2, 3 :: int}" by simp_all
  show ?thesis
    using end_to_end_total [OF f lists_sets_sorted, of "[1, 2, 3]"] by blast
qed

text \<open>
  Claim C10, as stated for every layout, fails where the call raises: \<open>pack_elements\<close>
  divides by the spacing of a non-empty region, so on a layout whose crescent element
  size and padding are both 0 it raises \<^verbatim>\<open>ZeroDivisionError\<close> for a one-element a-only
  region, whatever the \<open>elements\<close> argument is, and returns no position map.
\<close>

theorem elements_key_set_counterexample:
  "pack_elements sorted_list_of_set [] {1 :: int} {}
     \<lparr>union_size = 1, intersection_size = 0, a_only_size = 1, b_only_size = 0,
      circle_radius = 1, circle_separation = 1,
      circle_a_center = (- 1 / 2, 0, 0), circle_b_center = (1 / 2, 0, 0),
      tier = ''comfortable'',
      lens_font_size = 38, lens_element_size = 2 / 5, lens_padding = 7 / 20,
      lens_area = 1, lens_width = 1, lens_height = 1,
      crescent_font_size = 0, crescent_element_size = 0, crescent_padding = 0,
      crescent_radii = [''a_only'' \<mapsto> 1, ''b_only'' \<mapsto> 1],
      is_valid = True, warnings = []\<rparr>
   = Inl ZeroDivisionError
   \<and> pack_elements sorted_list_of_set [1] {1 :: int} {}
     \<lparr>union_size = 1, intersection_size = 0, a_only_size = 1, b_only_size = 0,
      circle_radius = 1, circle_separation = 1,
      circle_a_center = (- 1 / 2, 0, 0), circle_b_center = (1 / 2, 0, 0),
      tier = ''comfortable'',
      lens_font_size = 38, lens_element_size = 2 / 5, lens_padding = 7 / 20,
      lens_area = 1, lens_width = 1, lens_height = 1,
      crescent_font_size = 0, crescent_element_size = 0, crescent_padding = 0,
      crescent_radii = [''a_only'' \<mapsto> 1, ''b_only'' \<mapsto> 1],
      is_valid = True, warnings = []\<rparr>
   = Inl ZeroDivisionError"
  by (simp add: pack_elements_def lookup_def bind_res_def hexagonal_pack_def
      hexagonal_candidates_def py_div_def)

text \<open>
  Claim C10, amended. The \<open>elements\<close> argument of \<open>pack_elements\<close> has no effect: two
  calls that differ in it alone have the same outcome, on every layout. On a layout with
  non-zero spacings and both radii the call returns a map; and whenever it returns a map
  for finite sets, the keys are exactly \<open>A \<union> B\<close> and the map agrees on each region with
  the packing of the region's elements in sorted order.
\<close>

theorem elements_argument_ignored:
  fixes A B :: "'a::linorder set"
  shows "pack_elements to_list es1 A B L = pack_elements to_list es2 A B L
     \<and> (crescent_element_size L + crescent_padding L \<noteq> 0
          \<and> lens_element_size L + lens_padding L \<noteq> 0
          \<and> crescent_radii L ''a_only'' \<noteq> None \<and> crescent_radii L ''b_only'' \<noteq> None
        \<longrightarrow> (\<exists>m. pack_elements to_list es1 A B L = Inr m))
     \<and> (finite A \<and> finite B \<and> lists_sets to_list \<longrightarrow>
          (\<forall>m. pack_elements to_list es1 A B L = Inr m \<longrightarrow>
             dom m = A \<union> B
           \<and> (\<forall>x\<in>A - B. \<forall>r ma. crescent_radii L ''a_only'' = Some r \<longrightarrow>
                 hexagonal_pack (sorted_list_of_set (A - B)) (a_region_center L) r
                   (crescent_element_size L) (crescent_padding L) = Inr ma \<longrightarrow> m x = ma x)
           \<and> (\<forall>x\<in>A \<inter> B. \<forall>mi.
                 elliptical_pack (sorted_list_of_set (A \<inter> B)) (lens_center L) (lens_width L)
                   (lens_height L) (lens_element_size L) (lens_padding L) = Inr mi \<longrightarrow>
                 m x = mi x)
           \<and> (\<forall>x\<in>B - A. \<forall>r mb. crescent_radii L ''b_only'' = Some r \<longrightarrow>
                 hexagonal_pack (sorted_list_of_set (B - A)) (b_region_center L) r
                   (crescent_element_size L) (crescent_padding L) = Inr mb \<longrightarrow> m x = mb x)))"
proof (intro conjI impI allI)
  show "pack_elements to_list es1 A B L = pack_elements to_list es2 A B L"
    by (simp add: pack_elements_def)
next
  assume "crescent_element_size L + crescent_padding L \<noteq> 0
          \<and> lens_element_size L + lens_padding L \<noteq> 0
          \<and> crescent_radii L ''a_only'' \<noteq> None \<and> crescent_radii L ''b_only'' \<noteq> None"
  then show "\<exists>m. pack_elements to_list es1 A B L = Inr m"
    using pack_elements_total [of L _ _ to_list es1 A B] by auto
next
  fix m
  assume h: "finite A \<and> finite B \<and> lists_sets to_list"
    and m: "pack_elements to_list es1 A B L = Inr m"
  have en: "enumerates to_list (A - B)" "enumerates to_list (A \<inter> B)"
    "enumerates to_list (B - A)"
    using h by (simp_all add: lists_sets_def)
  obtain ma mi mb where parts: "m = ma ++ mi ++ mb"
    and d: "dom ma = A - B" "dom mi = A \<inter> B" "dom mb = B - A"
    and ua: "\<And>r ma'. crescent_radii L ''a_only'' = Some r \<Longrightarrow> A - B \<noteq> {} \<Longrightarrow>
            hexagonal_pack (sorted_list_of_set (A - B)) (a_region_center L) r
              (crescent_element_size L) (crescent_padding L) = Inr ma' \<Longrightarrow> ma' = ma"
    and ui: "\<And>mi'. A \<inter> B \<noteq> {} \<Longrightarrow>
            elliptical_pack (sorted_list_of_set (A \<inter> B)) (lens_center L) (lens_width L)
              (lens_height L) (lens_element_size L) (lens_padding L) = Inr mi' \<Longrightarrow> mi' = mi"
    and ub: "\<And>r mb'. crescent_radii L ''b_only'' = Some r \<Longrightarrow> B - A \<noteq> {} \<Longrightarrow>
            hexagonal_pack (sorted_list_of_set (B - A)) (b_region_center L) r
              (crescent_element_size L) (crescent_padding L) = Inr mb' \<Longrightarrow> mb' = mb"
    using pack_elements_regions [OF m en] by blast
  show "dom m = A \<union> B" using map_add3_regions(1) [OF d] parts by simp
  show "\<forall>x\<in>A - B. \<forall>r ma. crescent_radii L ''a_only'' = Some r \<longrightarrow>
                 hexagonal_pack (sorted_list_of_set (A - B)) (a_region_center L) r
                   (crescent_element_size L) (crescent_padding L) = Inr ma \<longrightarrow> m x = ma x"
    using ua map_add3_regions(2) [OF d] parts by blast
  show "\<forall>x\<in>A \<inter> B. \<forall>mi.
                 elliptical_pack (sorted_list_of_set (A \<inter> B)) (lens_center L) (lens_width L)
                   (lens_height L) (lens_element_size L) (lens_padding L) = Inr mi \<longrightarrow>
                 m x = mi x"
    using ui map_add3_regions(3) [OF d] parts by blast
  show "\<forall>x\<in>B - A. \<forall>r mb. crescent_radii L ''b_only'' = Some r \<longrightarrow>
                 hexagonal_pack (sorted_list_of_set (B - A)) (b_region_center L) r
                   (crescent_element_size L) (crescent_padding L) = Inr mb \<longrightarrow> m x = mb x"
    using ub map_add3_regions(4) [OF d] parts by blast
qed

theorem elements_argument_ignored_witness:
  "\<exists>L m. calculate_layout {1, 2 :: int} {2, 3} = Inr L
     \<and> pack_elements sorted_list_of_set [] {1, 2 :: int} {2, 3} L = Inr m
     \<and> pack_elements sorted_list_of_set [9, 9, 9] {1, 2 :: int} {2, 3} L = Inr m
     \<and> dom m = {1, 2} \<union> {2, 3}"
proof -
  have f: "finite {1, 2 :: int} \<and> finite {2, 3 :: int} \<and> lists_sets (sorted_list_of_set :: int set \<Rightarrow> int list)"
    using lists_sets_sorted by simp
  obtain L m where L: "calculate_layout {1, 2 :: int} {2, 3} = Inr L"
    and m: "pack_elements sorted_list_of_set [] {1, 2 :: int} {2, 3} L = Inr m"
    using layout_packs [of "{1, 2 :: int}" "{2, 3}" sorted_list_of_set "[]"] lists_sets_sorted
    by auto
  note t = elements_argument_ignored [of sorted_list_of_set "[]" "{1, 2 :: int}" "{2, 3}" L "[9, 9, 9]"]
  have "pack_elements sorted_list_of_set [9, 9, 9] {1, 2 :: int} {2, 3} L = Inr m"
    using t m by simp
  moreover have "dom m = {1, 2} \<union> {2, 3}"
    using t f m by blast
  ultimately show ?thesis using L m by blast
qed

end
